theory Spec2Isabelle
  imports Main "HOL-Library.Word"
begin

section \<open>JavaScript strings\<close>

text \<open>
  A JavaScript string is a sequence of UTF-16 code units; \<open>length\<close>, \<open>substring\<close>,
  \<open>includes\<close>, \<open>startsWith\<close>, \<open>split\<close> and regular expressions without the \<open>u\<close>
  flag all count code units. String literals of the source are written \<open>js ''...''\<close>.
\<close>

type_synonym jsstring = "16 word list"

definition js :: "string \<Rightarrow> jsstring" where
  "js s = map of_char s"

definition NL :: "16 word" where
  "NL = 10"

text \<open>
  \<open>String.prototype.trim\<close> removes ECMAScript WhiteSpace and LineTerminator code units
  from both ends: TAB, LF, VT, FF, CR, SP, NBSP, U+1680, U+2000..U+200A, U+2028, U+2029,
  U+202F, U+205F, U+3000 and U+FEFF.
\<close>

definition isWhiteSpace :: "16 word \<Rightarrow> bool" where
  "isWhiteSpace c \<longleftrightarrow> c \<in> {9, 10, 11, 12, 13, 32, 160, 5760,
      8192, 8193, 8194, 8195, 8196, 8197, 8198, 8199, 8200, 8201, 8202,
      8232, 8233, 8239, 8287, 12288, 65279}"

definition trim :: "jsstring \<Rightarrow> jsstring" where
  "trim s = rev (dropWhile isWhiteSpace (rev (dropWhile isWhiteSpace s)))"

definition startsWith :: "jsstring \<Rightarrow> jsstring \<Rightarrow> bool" where
  "startsWith s p \<longleftrightarrow> take (length p) s = p"

text \<open>\<open>s.indexOf(p)\<close>: the least index at which \<open>p\<close> occurs in \<open>s\<close>, if any.\<close>

fun indexOf :: "jsstring \<Rightarrow> jsstring \<Rightarrow> nat option" where
  "indexOf [] p = (if p = [] then Some 0 else None)"
| "indexOf (c # cs) p =
     (if startsWith (c # cs) p then Some 0 else map_option Suc (indexOf cs p))"

definition includes_str :: "jsstring \<Rightarrow> jsstring \<Rightarrow> bool" where
  "includes_str s p \<longleftrightarrow> indexOf s p \<noteq> None"

text \<open>
  \<open>s.split("\n")\<close>: the segments between line feeds; never empty, and the last segment is
  what follows the last line feed.
\<close>

fun split_nl :: "jsstring \<Rightarrow> jsstring list" where
  "split_nl [] = [[]]"
| "split_nl (c # cs) =
     (if c = NL then [] # split_nl cs
      else (case split_nl cs of [] \<Rightarrow> [[c]] | l # ls \<Rightarrow> (c # l) # ls))"

section \<open>Errors\<close>

text \<open>
  What a JavaScript \<open>throw\<close> carries: an \<open>Error\<close> object with its message, or any other
  value (for which \<open>error instanceof Error\<close> is false).
\<close>

datatype js_throwable = JsError jsstring | NonError

section \<open>SSE frame reassembler: \<open>parseSSEStream\<close>\<close>

text \<open>
  The body of an upstream response, as the reader obtained from
  \<open>stream.pipeThrough(new TextDecoderStream()).getReader()\<close> delivers it: the decoded
  text of the successive reads, and how the stream ends (\<open>None\<close>: \<open>done\<close>; \<open>Some e\<close>:
  \<open>reader.read()\<close> rejects with \<open>e\<close> after the last read).
\<close>

record body_stream =
  reads :: "jsstring list"
  ending :: "js_throwable option"

text \<open>
  \<open>try { yield JSON.parse(objectBuffer) } catch (e) { console.error(...) }\<close>.
  \<open>JSON.parse\<close> is the parameter \<open>parse\<close>; \<open>None\<close> is a thrown SyntaxError.
\<close>

definition tryParse :: "(jsstring \<Rightarrow> 'e option) \<Rightarrow> jsstring \<Rightarrow> 'e list" where
  "tryParse parse objectBuffer = (case parse objectBuffer of None \<Rightarrow> [] | Some e \<Rightarrow> [e])"

text \<open>
  The loop \<open>for (const line of lines)\<close>, from the current \<open>objectBuffer\<close>: the new
  \<open>objectBuffer\<close> and the events yielded.
\<close>

fun sseLines :: "(jsstring \<Rightarrow> 'e option) \<Rightarrow> jsstring \<Rightarrow> jsstring list \<Rightarrow> jsstring \<times> 'e list" where
  "sseLines parse objectBuffer [] = (objectBuffer, [])"
| "sseLines parse objectBuffer (line # rest) =
     (if trim line = [] then
        (if objectBuffer \<noteq> [] then
           (case sseLines parse [] rest of
              (ob, es) \<Rightarrow> (ob, tryParse parse objectBuffer @ es))
         else sseLines parse objectBuffer rest)
      else if startsWith line (js ''data: '') then
        sseLines parse (objectBuffer @ drop 6 line) rest
      else sseLines parse objectBuffer rest)"

text \<open>
  The iterations of \<open>while (true)\<close> that obtain a value: \<open>buffer += value\<close>, split at line
  feeds, keep the last segment as the new \<open>buffer\<close>, process the others. The result is the
  final \<open>buffer\<close> and \<open>objectBuffer\<close>, and the events yielded.
\<close>

fun sseReads ::
  "(jsstring \<Rightarrow> 'e option) \<Rightarrow> jsstring \<Rightarrow> jsstring \<Rightarrow> jsstring list \<Rightarrow> (jsstring \<times> jsstring) \<times> 'e list" where
  "sseReads parse buffer objectBuffer [] = ((buffer, objectBuffer), [])"
| "sseReads parse buffer objectBuffer (v # rest) =
     (let lines = split_nl (buffer @ v) in
      case sseLines parse objectBuffer (butlast lines) of
        (ob, es) \<Rightarrow>
          (case sseReads parse (last lines) ob rest of
             (st, es') \<Rightarrow> (st, es @ es')))"

text \<open>
  The generator: the events it yields and how it ends. On \<open>done\<close> a non-empty
  \<open>objectBuffer\<close> is parsed and yielded; the unterminated last line in \<open>buffer\<close> is not
  looked at.
\<close>

definition parseSSEStream ::
  "(jsstring \<Rightarrow> 'e option) \<Rightarrow> body_stream \<Rightarrow> 'e list \<times> js_throwable option" where
  "parseSSEStream parse stream =
     (case sseReads parse [] [] (reads stream) of
        ((buffer, objectBuffer), es) \<Rightarrow>
          (case ending stream of
             Some e \<Rightarrow> (es, Some e)
           | None \<Rightarrow>
               (es @ (if objectBuffer \<noteq> [] then tryParse parse objectBuffer else []), None)))"

text \<open>
  The state of the generator once the given reads have been taken and before the stream
  ends: the \<open>objectBuffer\<close> accumulated and not yet parsed, and the events yielded so far.
\<close>

definition pendingBuffer :: "(jsstring \<Rightarrow> 'e option) \<Rightarrow> jsstring list \<Rightarrow> jsstring" where
  "pendingBuffer parse rs = snd (fst (sseReads parse [] [] rs))"

definition yieldedSoFar :: "(jsstring \<Rightarrow> 'e option) \<Rightarrow> jsstring list \<Rightarrow> 'e list" where
  "yieldedSoFar parse rs = snd (sseReads parse [] [] rs)"

section \<open>Stream chunks\<close>

text \<open>
  \<open>StreamChunk\<close> of \<open>types.ts\<close>: \<open>type\<close> is one of \<open>"text"\<close>, \<open>"usage"\<close>,
  \<open>"reasoning"\<close>, \<open>"thinking_content"\<close>, \<open>"real_thinking"\<close>, and \<open>data\<close> is
  \<open>string | UsageData | ReasoningData\<close>.
\<close>

datatype chunk_type = Text | Usage | Reasoning | ThinkingContent | RealThinking

record UsageData =
  inputTokens :: int
  outputTokens :: int

datatype chunk_data =
    StringData jsstring
  | UsageObject UsageData
  | ReasoningObject jsstring \<comment> \<open>\<open>ReasoningData\<close>: \<open>{ reasoning: string }\<close>\<close>

record StreamChunk =
  chunk_type :: chunk_type
  chunk_data :: chunk_data

definition textChunk :: "jsstring \<Rightarrow> StreamChunk" where
  "textChunk s = \<lparr>chunk_type = Text, chunk_data = StringData s\<rparr>"

definition thinkingContentChunk :: "jsstring \<Rightarrow> StreamChunk" where
  "thinkingContentChunk s = \<lparr>chunk_type = ThinkingContent, chunk_data = StringData s\<rparr>"

definition realThinkingChunk :: "jsstring \<Rightarrow> StreamChunk" where
  "realThinkingChunk s = \<lparr>chunk_type = RealThinking, chunk_data = StringData s\<rparr>"

definition reasoningChunk :: "jsstring \<Rightarrow> StreamChunk" where
  "reasoningChunk s = \<lparr>chunk_type = Reasoning, chunk_data = ReasoningObject s\<rparr>"

definition usageChunk :: "UsageData \<Rightarrow> StreamChunk" where
  "usageChunk u = \<lparr>chunk_type = Usage, chunk_data = UsageObject u\<rparr>"

text \<open>
  What a generator yields, with the place of the \<open>yield\<close> kept: the two thinking
  delimiters are yielded by statements of their own, every other chunk is a \<open>Fragment\<close>.
  \<open>chunk_of\<close> is the chunk that the consumer receives.
\<close>

datatype emitted = OpenDelimiter | CloseDelimiter | Fragment StreamChunk

fun chunk_of :: "emitted \<Rightarrow> StreamChunk" where
  "chunk_of OpenDelimiter = thinkingContentChunk (js ''<thinking>\<newline>'')"
| "chunk_of CloseDelimiter = thinkingContentChunk (js ''\<newline></thinking>\<newline>\<newline>'')"
| "chunk_of (Fragment c) = c"

section \<open>Upstream events\<close>

text \<open>
  The parsed events, with the fields that \<open>performStreamRequest\<close> reads, typed as the
  interfaces \<open>GeminiResponse\<close>, \<open>GeminiCandidate\<close>, \<open>GeminiPart\<close> and
  \<open>GeminiUsageMetadata\<close> declare them; an optional field is an \<open>option\<close>. The
  generator \<open>parseSSEStream\<close> is declared to yield \<open>GeminiResponse\<close>, so the parser
  handed to it returns values of this type.
\<close>

record GeminiPart =
  part_text :: "jsstring option"
  part_thought :: "bool option"

record GeminiContent =
  parts :: "GeminiPart list option"

record GeminiCandidate =
  content :: "GeminiContent option"

record GeminiUsageMetadata =
  promptTokenCount :: "int option"
  candidatesTokenCount :: "int option"

record GeminiResponseBody =
  candidates :: "GeminiCandidate list option"
  usageMetadata :: "GeminiUsageMetadata option"

record GeminiResponse =
  response :: "GeminiResponseBody option"

section \<open>Legacy thinking tags\<close>

text \<open>
  \<open>text.match(/<think>(.*?)<\/think>/s)\<close>, its first capture group: the match starts at
  the leftmost \<open><think>\<close>, and the lazy \<open>.*?\<close> (with \<open>s\<close>, any code unit) stops at the
  first \<open></think>\<close> after it. When no \<open></think>\<close> follows the leftmost \<open><think>\<close>,
  none follows a later one, and there is no match.
\<close>

definition thinkingMatch :: "jsstring \<Rightarrow> jsstring option" where
  "thinkingMatch t =
     (case indexOf t (js ''<think>'') of
        None \<Rightarrow> None
      | Some i \<Rightarrow>
          (let after = drop (i + 7) t in
           case indexOf after (js ''</think>'') of
             None \<Rightarrow> None
           | Some j \<Rightarrow> Some (take j after)))"

lemma indexOf_bound: "indexOf t p = Some i \<Longrightarrow> i + length p \<le> length t"
proof (induction t arbitrary: i)
  case Nil
  then show ?case by (simp split: if_splits)
next
  case (Cons c cs)
  show ?case
  proof (cases "startsWith (c # cs) p")
    case True
    then have "length (take (length p) (c # cs)) = length p"
      by (simp add: startsWith_def)
    then have "length p \<le> length (c # cs)"
      by (simp only: length_take)
    with True Cons.prems show ?thesis by simp
  next
    case False
    with Cons.prems obtain k where "indexOf cs p = Some k" and "i = Suc k" by auto
    with Cons.IH show ?thesis by fastforce
  qed
qed

text \<open>
  \<open>text.replace(/<think>.*?<\/think>/gs, "")\<close>: every match is removed, each search
  starting where the previous match ended.
\<close>

function removeThink :: "jsstring \<Rightarrow> jsstring" where
  "removeThink t =
     (case indexOf t (js ''<think>'') of
        None \<Rightarrow> t
      | Some i \<Rightarrow>
          (case indexOf (drop (i + 7) t) (js ''</think>'') of
             None \<Rightarrow> t
           | Some j \<Rightarrow> take i t @ removeThink (drop (j + 8) (drop (i + 7) t))))"
  by pat_completeness auto
termination
proof (relation "measure length")
  show "wf (measure length)" by simp
next
  fix t :: jsstring and i j
  assume "indexOf t (js ''<think>'') = Some i"
  then have "i + length (js ''<think>'') \<le> length t" by (rule indexOf_bound)
  then have "0 < length t" by (cases t) (simp_all add: js_def)
  then show "(drop (j + 8) (drop (i + 7) t), t) \<in> measure length" by simp
qed

declare removeThink.simps [simp del]

section \<open>Classifier and thinking-channel state machine\<close>

text \<open>
  The locals \<open>hasClosedThinking\<close> and \<open>hasStartedThinking\<close> of one call of
  \<open>performStreamRequest\<close>.
\<close>

record thinking_state =
  hasClosedThinking :: bool
  hasStartedThinking :: bool

text \<open>
  \<open>if (!hasStartedThinking) { yield <opening delimiter>; hasStartedThinking = true }\<close>
  followed by \<open>yield { type: "thinking_content", data: s }\<close>.
\<close>

definition yieldThinkingContent :: "thinking_state \<Rightarrow> jsstring \<Rightarrow> emitted list \<times> thinking_state" where
  "yieldThinkingContent st s =
     ((if \<not> hasStartedThinking st then [OpenDelimiter] else [])
        @ [Fragment (thinkingContentChunk s)],
      st\<lparr>hasStartedThinking := True\<rparr>)"

text \<open>
  The body of \<open>for (const part of candidate.content.parts)\<close>: the three branches of the
  source in its order. A condition \<open>part.text\<close> holds when the text is present and not
  empty; \<open>!part.thought\<close> holds when the flag is absent or false.
\<close>

definition handlePart ::
  "bool \<Rightarrow> bool \<Rightarrow> thinking_state \<Rightarrow> GeminiPart \<Rightarrow> emitted list \<times> thinking_state" where
  "handlePart needsThinkingClose realThinkingAsContent st part =
     (case part_text part of
        None \<Rightarrow> ([], st)
      | Some t \<Rightarrow>
          if t = [] then ([], st)
          else if part_thought part = Some True then
            (if realThinkingAsContent then yieldThinkingContent st t
             else ([Fragment (realThinkingChunk t)], st))
          else if includes_str t (js ''<think>'') then
            (if realThinkingAsContent then
               (case (case thinkingMatch t of
                        Some m \<Rightarrow> yieldThinkingContent st m
                      | None \<Rightarrow> ([], st)) of
                  (out, st1) \<Rightarrow>
                    (let nonThinkingContent = trim (removeThink t) in
                     if nonThinkingContent \<noteq> [] then
                       (if hasStartedThinking st1 \<and> \<not> hasClosedThinking st1 then
                          (out @ [CloseDelimiter, Fragment (textChunk nonThinkingContent)],
                           st1\<lparr>hasClosedThinking := True\<rparr>)
                        else (out @ [Fragment (textChunk nonThinkingContent)], st1))
                     else (out, st1)))
             else
               ((case thinkingMatch t of
                   Some m \<Rightarrow> [Fragment (realThinkingChunk m)]
                 | None \<Rightarrow> [])
                @ (let nonThinkingContent = trim (removeThink t) in
                   if nonThinkingContent \<noteq> [] then [Fragment (textChunk nonThinkingContent)]
                   else []),
                st))
          else if part_thought part \<noteq> Some True \<and> \<not> includes_str t (js ''<think>'') then
            (if (needsThinkingClose \<or> (realThinkingAsContent \<and> hasStartedThinking st))
                \<and> \<not> hasClosedThinking st then
               ([CloseDelimiter, Fragment (textChunk t)], st\<lparr>hasClosedThinking := True\<rparr>)
             else ([Fragment (textChunk t)], st))
          else ([], st))"

fun handleParts ::
  "bool \<Rightarrow> bool \<Rightarrow> thinking_state \<Rightarrow> GeminiPart list \<Rightarrow> emitted list \<times> thinking_state" where
  "handleParts needsThinkingClose realThinkingAsContent st [] = ([], st)"
| "handleParts needsThinkingClose realThinkingAsContent st (part # rest) =
     (case handlePart needsThinkingClose realThinkingAsContent st part of
        (out, st1) \<Rightarrow>
          (case handleParts needsThinkingClose realThinkingAsContent st1 rest of
             (out', st2) \<Rightarrow> (out @ out', st2)))"

text \<open>\<open>jsonData.response?.candidates?.[0]\<close> and \<open>candidate?.content?.parts\<close>.\<close>

definition firstCandidate :: "GeminiResponse \<Rightarrow> GeminiCandidate option" where
  "firstCandidate jsonData =
     (case response jsonData of
        None \<Rightarrow> None
      | Some r \<Rightarrow>
          (case candidates r of
             None \<Rightarrow> None
           | Some [] \<Rightarrow> None
           | Some (c # _) \<Rightarrow> Some c))"

definition candidateParts :: "GeminiCandidate option \<Rightarrow> GeminiPart list option" where
  "candidateParts candidate =
     (case candidate of
        None \<Rightarrow> None
      | Some c \<Rightarrow> (case content c of None \<Rightarrow> None | Some ct \<Rightarrow> parts ct))"

text \<open>\<open>x || 0\<close> on an optional number.\<close>

definition orZero :: "int option \<Rightarrow> int" where
  "orZero x = (case x of None \<Rightarrow> 0 | Some n \<Rightarrow> n)"

text \<open>The body of \<open>for await (const jsonData of this.parseSSEStream(response.body))\<close>.\<close>

definition handleEvent ::
  "bool \<Rightarrow> bool \<Rightarrow> thinking_state \<Rightarrow> GeminiResponse \<Rightarrow> emitted list \<times> thinking_state" where
  "handleEvent needsThinkingClose realThinkingAsContent st jsonData =
     (case (case candidateParts (firstCandidate jsonData) of
              Some ps \<Rightarrow> handleParts needsThinkingClose realThinkingAsContent st ps
            | None \<Rightarrow> ([], st)) of
        (out, st1) \<Rightarrow>
          (out @
           (case (case response jsonData of None \<Rightarrow> None | Some r \<Rightarrow> usageMetadata r) of
              Some usage \<Rightarrow>
                [Fragment (usageChunk
                   \<lparr>inputTokens = orZero (promptTokenCount usage),
                    outputTokens = orZero (candidatesTokenCount usage)\<rparr>)]
            | None \<Rightarrow> []),
           st1))"

fun handleEvents ::
  "bool \<Rightarrow> bool \<Rightarrow> thinking_state \<Rightarrow> GeminiResponse list \<Rightarrow> emitted list \<times> thinking_state" where
  "handleEvents needsThinkingClose realThinkingAsContent st [] = ([], st)"
| "handleEvents needsThinkingClose realThinkingAsContent st (jsonData # rest) =
     (case handleEvent needsThinkingClose realThinkingAsContent st jsonData of
        (out, st1) \<Rightarrow>
          (case handleEvents needsThinkingClose realThinkingAsContent st1 rest of
             (out', st2) \<Rightarrow> (out @ out', st2)))"

text \<open>
  The part of \<open>performStreamRequest\<close> after a successful response with a body: both flags
  start false, the events of the body are handled in order, and the generator ends as
  \<open>parseSSEStream\<close> does.
\<close>

definition consumeBody ::
  "(jsstring \<Rightarrow> GeminiResponse option) \<Rightarrow> bool \<Rightarrow> bool \<Rightarrow> body_stream
     \<Rightarrow> emitted list \<times> js_throwable option" where
  "consumeBody parse needsThinkingClose realThinkingAsContent b =
     (case parseSSEStream parse b of
        (events, fin) \<Rightarrow>
          (fst (handleEvents needsThinkingClose realThinkingAsContent
                  \<lparr>hasClosedThinking = False, hasStartedThinking = False\<rparr> events),
           fin))"

section \<open>Configuration\<close>

text \<open>The flags of \<open>Env\<close> that the streaming core reads; an unset variable is \<open>None\<close>.\<close>

record Env =
  ENABLE_FAKE_THINKING :: "jsstring option"
  ENABLE_REAL_THINKING :: "jsstring option"
  STREAM_THINKING_AS_CONTENT :: "jsstring option"
  ENABLE_AUTO_MODEL_SWITCHING :: "jsstring option"

text \<open>\<open>ModelInfo\<close> and the table \<open>geminiCliModels\<close> of \<open>models.ts\<close>.\<close>

record ModelInfo =
  maxTokens :: nat
  contextWindow :: nat
  supportsImages :: bool
  supportsPromptCache :: bool
  inputPrice :: nat
  outputPrice :: nat
  thinking :: bool

definition geminiCliModels :: "(jsstring \<times> ModelInfo) list" where
  "geminiCliModels =
     [(js ''gemini-2.5-pro'',
       \<lparr>maxTokens = 65536, contextWindow = 1048576, supportsImages = True,
        supportsPromptCache = False, inputPrice = 0, outputPrice = 0, thinking = True\<rparr>),
      (js ''gemini-2.5-flash'',
       \<lparr>maxTokens = 65536, contextWindow = 1048576, supportsImages = True,
        supportsPromptCache = False, inputPrice = 0, outputPrice = 0, thinking = True\<rparr>)]"

text \<open>\<open>AUTO_SWITCH_MODEL_MAP\<close> and \<open>RATE_LIMIT_STATUS_CODES\<close> of \<open>constants.ts\<close>.\<close>

definition AUTO_SWITCH_MODEL_MAP :: "(jsstring \<times> jsstring) list" where
  "AUTO_SWITCH_MODEL_MAP = [(js ''gemini-2.5-pro'', js ''gemini-2.5-flash'')]"

definition RATE_LIMIT_STATUS_CODES :: "nat list" where
  "RATE_LIMIT_STATUS_CODES = [429, 503]"

section \<open>\<open>AutoModelSwitchingHelper\<close>\<close>

definition isEnabled :: "Env \<Rightarrow> bool" where
  "isEnabled env \<longleftrightarrow> ENABLE_AUTO_MODEL_SWITCHING env = Some (js ''true'')"

text \<open>
  The table is a plain object, so a lookup that finds no key of its own goes on to
  \<open>Object.prototype\<close>. \<open>objectPrototypeMember key\<close> is the member found there, if any:
  a built-in function, or for \<open>__proto__\<close> the prototype object itself. Such a value is
  not a string; it is represented by the text that string conversion gives it (in V8, the
  engine of the worker), which is what a template literal shows and the key under which
  it is itself looked up. All these values are truthy.
\<close>

definition objectPrototypeMember :: "jsstring \<Rightarrow> jsstring option" where
  "objectPrototypeMember key =
     (if key = js ''constructor'' then Some (js ''function Object() { [native code] }'')
      else if key = js ''__proto__'' then Some (js ''[object Object]'')
      else if key \<in> set (map js
          [''toString'', ''toLocaleString'', ''valueOf'', ''hasOwnProperty'', ''isPrototypeOf'',
           ''propertyIsEnumerable'', ''__defineGetter__'', ''__defineSetter__'',
           ''__lookupGetter__'', ''__lookupSetter__''])
      then Some (js ''function '' @ key @ js ''() { [native code] }'')
      else None)"

text \<open>
  \<open>AUTO_SWITCH_MODEL_MAP[originalModel] || null\<close>: the key of the table, with an empty
  value counting as \<open>null\<close>, or else the inherited member.
\<close>

definition getFallbackModel :: "jsstring \<Rightarrow> jsstring option" where
  "getFallbackModel originalModel =
     (case map_of AUTO_SWITCH_MODEL_MAP originalModel of
        None \<Rightarrow> objectPrototypeMember originalModel
      | Some fallbackModel \<Rightarrow> if fallbackModel = [] then None else Some fallbackModel)"

definition isRateLimitStatus :: "nat \<Rightarrow> bool" where
  "isRateLimitStatus statusCode \<longleftrightarrow> statusCode \<in> set RATE_LIMIT_STATUS_CODES"

definition isRateLimitError :: "js_throwable \<Rightarrow> bool" where
  "isRateLimitError error =
     (case error of
        JsError message \<Rightarrow>
          includes_str message (js ''Stream request failed: 429'')
          \<or> includes_str message (js ''Stream request failed: 503'')
      | NonError \<Rightarrow> False)"

definition createSwitchNotification :: "jsstring \<Rightarrow> jsstring \<Rightarrow> jsstring" where
  "createSwitchNotification originalModel fallbackModel =
     js ''[Auto-switched from '' @ originalModel @ js '' to '' @ fallbackModel
       @ js '' due to rate limiting]\<newline>\<newline>''"

section \<open>Upstream calls\<close>

text \<open>
  \<open>streamRequest\<close>: \<open>{ model, project, request }\<close>; the type of \<open>request\<close> (contents,
  generation config, safety settings) is left open.
\<close>

record 'r stream_request =
  model :: jsstring
  project :: jsstring
  request :: 'r

record http_response =
  status :: nat
  body :: "body_stream option"

text \<open>\<open>response.ok\<close>: the status is in the range 200 to 299.\<close>

definition response_ok :: "http_response \<Rightarrow> bool" where
  "response_ok resp \<longleftrightarrow> 200 \<le> status resp \<and> status resp \<le> 299"

text \<open>\<open>await response.text()\<close>: the error with which reading the body fails, if it does.\<close>

definition responseTextFailure :: "http_response \<Rightarrow> js_throwable option" where
  "responseTextFailure resp = (case body resp of None \<Rightarrow> None | Some b \<Rightarrow> ending b)"

datatype fetch_result = FetchRejected js_throwable | FetchResponse http_response

text \<open>The calls that leave the client, in the order in which they are made.\<close>

datatype 'r effect = Fetch "'r stream_request" | ClearTokenCache | InitializeAuth

text \<open>
  The collaborators outside the client, as functions of the calls made so far: what
  \<open>fetch\<close> returns for a request, whether \<open>authManager.clearTokenCache()\<close> and
  \<open>authManager.initializeAuth()\<close> throw, and what the steps of \<open>streamContent\<close> before its
  first \<open>yield\<close> (authentication, project discovery, conversion of the messages,
  generation config) produce for a model id: an error, or the project id and the
  \<open>request\<close> object.
\<close>

record 'r world =
  fetch :: "'r effect list \<Rightarrow> 'r stream_request \<Rightarrow> fetch_result"
  clearTokenCache :: "'r effect list \<Rightarrow> js_throwable option"
  initializeAuth :: "'r effect list \<Rightarrow> js_throwable option"
  prepare :: "'r effect list \<Rightarrow> jsstring \<Rightarrow> js_throwable + jsstring \<times> 'r"

text \<open>The template literal \<open>${response.status}\<close>: a number in decimal.\<close>

fun decimal :: "nat \<Rightarrow> jsstring" where
  "decimal n =
     (if n < 10 then [of_nat (48 + n)]
      else decimal (n div 10) @ [of_nat (48 + n mod 10)])"

declare decimal.simps [simp del]

definition streamRequestFailed :: "nat \<Rightarrow> js_throwable" where
  "streamRequestFailed statusCode =
     JsError (js ''Stream request failed: '' @ decimal statusCode)"

section \<open>Fallback/retry controller: \<open>performStreamRequest\<close>\<close>

text \<open>
  The conditions under which a failed response is replayed with the fallback model:
  \<open>isRateLimitStatus(response.status) && !isRetry && originalModel\<close>, then
  \<open>fallbackModel && isEnabled()\<close>. The result is the original and the fallback model.
\<close>

definition fallbackDecision ::
  "Env \<Rightarrow> nat \<Rightarrow> bool \<Rightarrow> jsstring option \<Rightarrow> (jsstring \<times> jsstring) option" where
  "fallbackDecision env statusCode isRetry originalModel =
     (if isRateLimitStatus statusCode \<and> \<not> isRetry then
        (case originalModel of
           None \<Rightarrow> None
         | Some m \<Rightarrow>
             if m = [] then None
             else
               (case getFallbackModel m of
                  None \<Rightarrow> None
                | Some fallbackModel \<Rightarrow> if isEnabled env then Some (m, fallbackModel) else None))
      else None)"

text \<open>
  A generator's run: what it yields, how it ends (\<open>None\<close>: it returns; \<open>Some e\<close>: it
  throws \<open>e\<close>), and the calls made so far.
\<close>

type_synonym 'r run = "emitted list \<times> js_throwable option \<times> 'r effect list"

function performStreamRequest ::
  "(jsstring \<Rightarrow> GeminiResponse option) \<Rightarrow> 'r world \<Rightarrow> Env \<Rightarrow> 'r stream_request
     \<Rightarrow> bool \<Rightarrow> bool \<Rightarrow> bool \<Rightarrow> jsstring option \<Rightarrow> 'r effect list \<Rightarrow> 'r run" where
  "performStreamRequest parse w env streamRequest needsThinkingClose isRetry
       realThinkingAsContent originalModel tr =
     (case fetch w tr streamRequest of
        FetchRejected e \<Rightarrow> ([], Some e, tr @ [Fetch streamRequest])
      | FetchResponse resp \<Rightarrow>
          if \<not> response_ok resp then
            (if status resp = 401 \<and> \<not> isRetry then
               (case clearTokenCache w (tr @ [Fetch streamRequest]) of
                  Some e \<Rightarrow> ([], Some e, tr @ [Fetch streamRequest, ClearTokenCache])
                | None \<Rightarrow>
                    (case initializeAuth w (tr @ [Fetch streamRequest, ClearTokenCache]) of
                       Some e \<Rightarrow>
                         ([], Some e, tr @ [Fetch streamRequest, ClearTokenCache, InitializeAuth])
                     | None \<Rightarrow>
                         performStreamRequest parse w env streamRequest needsThinkingClose True
                           realThinkingAsContent originalModel
                           (tr @ [Fetch streamRequest, ClearTokenCache, InitializeAuth])))
             else
               (case fallbackDecision env (status resp) isRetry originalModel of
                  Some (m, fallbackModel) \<Rightarrow>
                    (case performStreamRequest parse w env
                            (streamRequest\<lparr>model := fallbackModel\<rparr>) needsThinkingClose True
                            realThinkingAsContent originalModel (tr @ [Fetch streamRequest]) of
                       (out, r, tr') \<Rightarrow>
                         (Fragment (textChunk (createSwitchNotification m fallbackModel)) # out,
                          r, tr'))
                | None \<Rightarrow>
                    (case responseTextFailure resp of
                       Some e \<Rightarrow> ([], Some e, tr @ [Fetch streamRequest])
                     | None \<Rightarrow>
                         ([], Some (streamRequestFailed (status resp)),
                          tr @ [Fetch streamRequest]))))
          else
            (case body resp of
               None \<Rightarrow>
                 ([], Some (JsError (js ''Response has no body'')), tr @ [Fetch streamRequest])
             | Some b \<Rightarrow>
                 (case consumeBody parse needsThinkingClose realThinkingAsContent b of
                    (out, r) \<Rightarrow> (out, r, tr @ [Fetch streamRequest]))))"
  by pat_completeness auto
termination
  by (relation "measure (\<lambda>(parse, w, env, streamRequest, needsThinkingClose, isRetry, rest).
        if isRetry then 0 else 1)")
     (auto simp: fallbackDecision_def split: if_splits)

declare performStreamRequest.simps [simp del]

section \<open>Synthetic reasoning generator\<close>

text \<open>
  \<open>THINKING_CONTENT_CHUNK_SIZE\<close> is 15. \<open>searchSpace.lastIndexOf(breakChar)\<close> for a
  one-unit \<open>breakChar\<close>; \<open>None\<close> is the result \<open>-1\<close>.
\<close>

definition THINKING_CONTENT_CHUNK_SIZE :: nat where
  "THINKING_CONTENT_CHUNK_SIZE = 15"

fun lastIndexOf :: "jsstring \<Rightarrow> 16 word \<Rightarrow> nat option" where
  "lastIndexOf [] c = None"
| "lastIndexOf (x # xs) c =
     (case lastIndexOf xs c of
        Some k \<Rightarrow> Some (Suc k)
      | None \<Rightarrow> if x = c then Some 0 else None)"

definition goodBreaks :: "16 word list" where
  "goodBreaks = [32, 10, 46, 44, 33, 63, 59, 58]"

text \<open>
  The loop over \<open>goodBreaks\<close>: the first break character whose last index in the search
  space exceeds \<open>THINKING_CONTENT_CHUNK_SIZE * 0.7 = 10.5\<close> sets \<open>chunkEnd\<close>.
\<close>

fun findBreak :: "jsstring \<Rightarrow> 16 word list \<Rightarrow> nat" where
  "findBreak searchSpace [] = THINKING_CONTENT_CHUNK_SIZE"
| "findBreak searchSpace (breakChar # rest) =
     (case lastIndexOf searchSpace breakChar of
        Some lastBreak \<Rightarrow>
          if lastBreak > 10 then lastBreak + 1 else findBreak searchSpace rest
      | None \<Rightarrow> findBreak searchSpace rest)"

lemma findBreak_pos: "0 < findBreak searchSpace bs"
  by (induction bs) (auto simp: THINKING_CONTENT_CHUNK_SIZE_def split: option.splits)

function chunkText :: "jsstring \<Rightarrow> jsstring list" where
  "chunkText remainingText =
     (if remainingText = [] then []
      else if length remainingText \<le> THINKING_CONTENT_CHUNK_SIZE then [remainingText]
      else
        (let chunkEnd =
               findBreak (take (THINKING_CONTENT_CHUNK_SIZE + 10) remainingText) goodBreaks
         in take chunkEnd remainingText # chunkText (drop chunkEnd remainingText)))"
  by pat_completeness auto
termination
proof (relation "measure length")
  show "wf (measure length)" by simp
next
  fix remainingText :: jsstring and x
  assume "remainingText \<noteq> []"
    and "x = findBreak (take (THINKING_CONTENT_CHUNK_SIZE + 10) remainingText) goodBreaks"
  then show "(drop x remainingText, remainingText) \<in> measure length"
    using findBreak_pos [of "take (THINKING_CONTENT_CHUNK_SIZE + 10) remainingText" goodBreaks]
    by simp
qed

declare chunkText.simps [simp del]

text \<open>
  \<open>generateReasoningOutput\<close>. Its parameter \<open>reasoningTexts\<close> is the list
  \<open>REASONING_MESSAGES.map((msg) => msg.replace("{requestPreview}", requestPreview))\<close>,
  computed from the last user message. As content, the opening delimiter is yielded and
  the joined text follows in chunks, with no closing delimiter; otherwise each text is
  yielded as a reasoning chunk.
\<close>

definition generateReasoningOutput :: "jsstring list \<Rightarrow> bool \<Rightarrow> emitted list" where
  "generateReasoningOutput reasoningTexts streamAsContent =
     (if streamAsContent then
        OpenDelimiter
          # map (\<lambda>chunk. Fragment (thinkingContentChunk chunk)) (chunkText (concat reasoningTexts))
      else map (\<lambda>reasoningText. Fragment (reasoningChunk reasoningText)) reasoningTexts)"

section \<open>\<open>streamContent\<close>\<close>

text \<open>
  \<open>geminiCliModels[modelId]?.thinking || false\<close>; a member inherited from
  \<open>Object.prototype\<close> has no property \<open>thinking\<close>, so only the keys of the table count.
\<close>

definition isThinkingModel :: "jsstring \<Rightarrow> bool" where
  "isThinkingModel modelId =
     (case map_of geminiCliModels modelId of None \<Rightarrow> False | Some info \<Rightarrow> thinking info)"

text \<open>
  \<open>includeReasoningOption\<close> is \<open>options?.includeReasoning\<close>. The synthetic prelude runs
  for a thinking model with fake thinking enabled when reasoning is not requested, and
  \<open>performStreamRequest\<close> follows with \<open>isRetry = false\<close> and the model id as
  \<open>originalModel\<close>.
\<close>

definition streamContent ::
  "(jsstring \<Rightarrow> GeminiResponse option) \<Rightarrow> 'r world \<Rightarrow> Env \<Rightarrow> jsstring \<Rightarrow> bool option
     \<Rightarrow> jsstring list \<Rightarrow> 'r effect list \<Rightarrow> 'r run" where
  "streamContent parse w env modelId includeReasoningOption reasoningTexts tr =
     (case prepare w tr modelId of
        Inl e \<Rightarrow> ([], Some e, tr)
      | Inr (projectId, req) \<Rightarrow>
          (let isFakeThinkingEnabled = (ENABLE_FAKE_THINKING env = Some (js ''true''));
               streamThinkingAsContent = (STREAM_THINKING_AS_CONTENT env = Some (js ''true''));
               includeReasoning = (includeReasoningOption = Some True);
               fake = (isThinkingModel modelId \<and> isFakeThinkingEnabled \<and> \<not> includeReasoning);
               prelude =
                 (if fake then generateReasoningOutput reasoningTexts streamThinkingAsContent
                  else []);
               needsThinkingClose = (fake \<and> streamThinkingAsContent)
           in
             case performStreamRequest parse w env
                    \<lparr>model = modelId, project = projectId, request = req\<rparr>
                    needsThinkingClose False (includeReasoning \<and> streamThinkingAsContent)
                    (Some modelId) tr of
               (out, r, tr') \<Rightarrow> (prelude @ out, r, tr')))"

section \<open>Non-streaming completion: \<open>getCompletion\<close>\<close>

record completion =
  completion_content :: jsstring
  completion_usage :: "chunk_data option"

text \<open>
  The body of the loop \<open>for await (const chunk of ...)\<close> in \<open>getCompletion\<close> and in
  \<open>handleNonStreamingFallback\<close>; \<open>typeof chunk.data === "object"\<close> holds for usage and
  reasoning data.
\<close>

definition collectChunk :: "completion \<Rightarrow> StreamChunk \<Rightarrow> completion" where
  "collectChunk acc chunk =
     (case (chunk_type chunk, chunk_data chunk) of
        (Text, StringData s) \<Rightarrow> acc\<lparr>completion_content := completion_content acc @ s\<rparr>
      | (Usage, UsageObject u) \<Rightarrow> acc\<lparr>completion_usage := Some (UsageObject u)\<rparr>
      | (Usage, ReasoningObject x) \<Rightarrow> acc\<lparr>completion_usage := Some (ReasoningObject x)\<rparr>
      | _ \<Rightarrow> acc)"

definition collectChunks :: "jsstring \<Rightarrow> StreamChunk list \<Rightarrow> completion" where
  "collectChunks initial chunks =
     foldl collectChunk \<lparr>completion_content = initial, completion_usage = None\<rparr> chunks"

text \<open>
  \<open>handleNonStreamingFallback\<close>: \<open>Inr None\<close> is the result \<open>null\<close>; an error thrown by
  the fallback stream propagates.
\<close>

definition handleNonStreamingFallback ::
  "(jsstring \<Rightarrow> GeminiResponse option) \<Rightarrow> 'r world \<Rightarrow> Env \<Rightarrow> jsstring \<Rightarrow> bool option
     \<Rightarrow> jsstring list \<Rightarrow> 'r effect list
     \<Rightarrow> (js_throwable + completion option) \<times> 'r effect list" where
  "handleNonStreamingFallback parse w env originalModel includeReasoningOption reasoningTexts tr =
     (case getFallbackModel originalModel of
        None \<Rightarrow> (Inr None, tr)
      | Some fallbackModel \<Rightarrow>
          if \<not> isEnabled env then (Inr None, tr)
          else
            (case streamContent parse w env fallbackModel includeReasoningOption
                    reasoningTexts tr of
               (out, Some e, tr') \<Rightarrow> (Inl e, tr')
             | (out, None, tr') \<Rightarrow>
                 (Inr (Some (collectChunks
                    (createSwitchNotification originalModel fallbackModel) (map chunk_of out))),
                  tr')))"

definition getCompletion ::
  "(jsstring \<Rightarrow> GeminiResponse option) \<Rightarrow> 'r world \<Rightarrow> Env \<Rightarrow> jsstring \<Rightarrow> bool option
     \<Rightarrow> jsstring list \<Rightarrow> 'r effect list \<Rightarrow> (js_throwable + completion) \<times> 'r effect list" where
  "getCompletion parse w env modelId includeReasoningOption reasoningTexts tr =
     (case streamContent parse w env modelId includeReasoningOption reasoningTexts tr of
        (out, None, tr') \<Rightarrow> (Inr (collectChunks [] (map chunk_of out)), tr')
      | (out, Some error, tr') \<Rightarrow>
          if isRateLimitError error then
            (case handleNonStreamingFallback parse w env modelId includeReasoningOption
                    reasoningTexts tr' of
               (Inl e, tr'') \<Rightarrow> (Inl e, tr'')
             | (Inr (Some fallbackResult), tr'') \<Rightarrow> (Inr fallbackResult, tr'')
             | (Inr None, tr'') \<Rightarrow> (Inl error, tr''))
          else (Inl error, tr'))"

section \<open>Downstream serializer: \<open>createOpenAIStreamTransformer\<close>\<close>

text \<open>
  \<open>OpenAIDelta\<close> and \<open>OpenAIChunk\<close> with the fields that vary: \<open>reasoning_content\<close>,
  \<open>tool_calls\<close>, \<open>logprobs\<close>, \<open>matched_stop\<close> and \<open>usage\<close> are always \<open>null\<close>, and
  there is one choice, of index 0. An absent field is \<open>None\<close>. The final chunk has the
  empty delta and the finish reason \<open>"stop"\<close>.
\<close>

record OpenAIDelta =
  delta_role :: "jsstring option"
  delta_content :: "jsstring option"
  delta_reasoning :: "jsstring option"

record OpenAIChunk =
  chunk_id :: jsstring
  chunk_object :: jsstring
  chunk_created :: nat
  chunk_model :: jsstring
  chunk_delta :: OpenAIDelta
  finish_reason :: "jsstring option"

text \<open>
  What \<open>controller.enqueue\<close> receives, before \<open>JSON.stringify\<close> and the encoder: the
  frame \<open>data: <chunk>\<close> or the frame \<open>data: [DONE]\<close>.
\<close>

datatype frame = DataFrame OpenAIChunk | DoneFrame

text \<open>
  The transformer of one response. \<open>objectName\<close> is the constant
  \<open>OPENAI_CHAT_COMPLETION_OBJECT\<close> of \<open>config.ts\<close>; \<open>chatID\<close> and \<open>creationTime\<close> are
  computed once, from \<open>crypto.randomUUID()\<close> and \<open>Date.now()\<close>.
\<close>

record transformer =
  objectName :: jsstring
  chatID :: jsstring
  creationTime :: nat
  transformer_model :: jsstring

definition openAIChunk :: "transformer \<Rightarrow> OpenAIDelta \<Rightarrow> OpenAIChunk" where
  "openAIChunk t delta =
     \<lparr>chunk_id = chatID t, chunk_object = objectName t, chunk_created = creationTime t,
      chunk_model = transformer_model t, chunk_delta = delta, finish_reason = None\<rparr>"

text \<open>
  A content delta, for a text chunk and for a thinking-as-content chunk:
  \<open>if (firstChunk) { delta.role = "assistant"; firstChunk = false }\<close>.
\<close>

definition contentDelta :: "bool \<Rightarrow> jsstring \<Rightarrow> OpenAIDelta" where
  "contentDelta firstChunk s =
     \<lparr>delta_role = (if firstChunk then Some (js ''assistant'') else None),
      delta_content = Some s, delta_reasoning = None\<rparr>"

definition reasoningDelta :: "jsstring \<Rightarrow> OpenAIDelta" where
  "reasoningDelta s = \<lparr>delta_role = None, delta_content = None, delta_reasoning = Some s\<rparr>"

text \<open>
  \<open>transform(chunk, controller)\<close>: the chunks enqueued and the new value of \<open>firstChunk\<close>.
  A condition \<open>chunk.data\<close> on a string holds when it is not empty; \<open>isReasoningData\<close>
  holds for an object with the key \<open>reasoning\<close>. A usage chunk is not forwarded.
\<close>

definition transform :: "transformer \<Rightarrow> bool \<Rightarrow> StreamChunk \<Rightarrow> OpenAIChunk list \<times> bool" where
  "transform t firstChunk chunk =
     (case (chunk_type chunk, chunk_data chunk) of
        (Text, StringData s) \<Rightarrow>
          if s \<noteq> [] then ([openAIChunk t (contentDelta firstChunk s)], False)
          else ([], firstChunk)
      | (ThinkingContent, StringData s) \<Rightarrow>
          if s \<noteq> [] then ([openAIChunk t (contentDelta firstChunk s)], False)
          else ([], firstChunk)
      | (RealThinking, StringData s) \<Rightarrow>
          if s \<noteq> [] then ([openAIChunk t (reasoningDelta s)], firstChunk)
          else ([], firstChunk)
      | (Reasoning, ReasoningObject r) \<Rightarrow> ([openAIChunk t (reasoningDelta r)], firstChunk)
      | _ \<Rightarrow> ([], firstChunk))"

fun transformAll :: "transformer \<Rightarrow> bool \<Rightarrow> StreamChunk list \<Rightarrow> OpenAIChunk list" where
  "transformAll t firstChunk [] = []"
| "transformAll t firstChunk (chunk # rest) =
     (case transform t firstChunk chunk of
        (out, firstChunk') \<Rightarrow> out @ transformAll t firstChunk' rest)"

text \<open>\<open>flush(controller)\<close>: the final chunk, then the end sentinel.\<close>

definition flush :: "transformer \<Rightarrow> frame list" where
  "flush t =
     [DataFrame
        ((openAIChunk t \<lparr>delta_role = None, delta_content = None, delta_reasoning = None\<rparr>)
           \<lparr>finish_reason := Some (js ''stop'')\<rparr>),
      DoneFrame]"

text \<open>The frames of a whole stream; \<open>firstChunk\<close> starts true.\<close>

definition createOpenAIStreamTransformer :: "transformer \<Rightarrow> StreamChunk list \<Rightarrow> frame list" where
  "createOpenAIStreamTransformer t chunks = map DataFrame (transformAll t True chunks) @ flush t"

section \<open>The content and usage of a completion, in the words of the specification\<close>

text \<open>
  The claim's words: the in-order concatenation of the data of the chunks of type text,
  and the data of the last usage chunk (whose data is an object), if there is one.
\<close>

definition textData :: "StreamChunk list \<Rightarrow> jsstring" where
  "textData chunks =
     concat (map (\<lambda>c. case chunk_data c of StringData s \<Rightarrow> s | _ \<Rightarrow> [])
               (filter (\<lambda>c. chunk_type c = Text) chunks))"

definition isUsageChunk :: "StreamChunk \<Rightarrow> bool" where
  "isUsageChunk c \<longleftrightarrow>
     chunk_type c = Usage \<and> (case chunk_data c of StringData s \<Rightarrow> False | _ \<Rightarrow> True)"

definition lastUsageData :: "StreamChunk list \<Rightarrow> chunk_data option" where
  "lastUsageData chunks =
     (case filter isUsageChunk chunks of [] \<Rightarrow> None | u # us \<Rightarrow> Some (chunk_data (last (u # us))))"

section \<open>Auxiliary definitions for the proofs\<close>

text \<open>The two flags of the state machine as numbers.\<close>

definition started :: "thinking_state \<Rightarrow> nat" where
  "started st = (if hasStartedThinking st then 1 else 0)"

definition closed :: "thinking_state \<Rightarrow> nat" where
  "closed st = (if hasClosedThinking st then 1 else 0)"

section \<open>Sample data for concrete runs\<close>

text \<open>A sample parser for concrete runs: it accepts the texts \<open>{1}\<close> and \<open>{2}\<close> only.\<close>

definition sampleParse :: "jsstring \<Rightarrow> nat option" where
  "sampleParse s = (if s = js ''{1}'' then Some 1 else if s = js ''{2}'' then Some 2 else None)"

text \<open>
  Sample upstream data for concrete runs: an event with one part, a parser that knows two
  payloads, responses, a world that answers the successive calls of \<open>fetch\<close> from a list
  of responses (and rejects once the list is used up), a request and environments.
\<close>

definition partEvent :: "GeminiPart \<Rightarrow> GeminiResponse" where
  "partEvent p =
     \<lparr>response = Some \<lparr>candidates = Some [\<lparr>content = Some \<lparr>parts = Some [p]\<rparr>\<rparr>],
        usageMetadata = None\<rparr>\<rparr>"

definition sampleJSON :: "jsstring \<Rightarrow> GeminiResponse option" where
  "sampleJSON s =
     (if s = js ''{hi}'' then
        Some (partEvent \<lparr>part_text = Some (js ''hi''), part_thought = None\<rparr>)
      else if s = js ''{tagged}'' then
        Some (partEvent \<lparr>part_text = Some (js ''<think>plan</think>answer''), part_thought = None\<rparr>)
      else None)"

definition okResponse :: "jsstring \<Rightarrow> http_response" where
  "okResponse payload =
     \<lparr>status = 200,
      body = Some \<lparr>reads = [js ''data: '' @ payload @ js ''\<newline>\<newline>''], ending = None\<rparr>\<rparr>"

definition failResponse :: "nat \<Rightarrow> http_response" where
  "failResponse s = \<lparr>status = s, body = None\<rparr>"

fun fetchCount :: "'r effect list \<Rightarrow> nat" where
  "fetchCount [] = 0"
| "fetchCount (Fetch q # es) = Suc (fetchCount es)"
| "fetchCount (e # es) = fetchCount es"

definition scriptedWorld :: "http_response list \<Rightarrow> unit world" where
  "scriptedWorld responses =
     \<lparr>fetch = (\<lambda>tr q. case drop (fetchCount tr) responses of
                         [] \<Rightarrow> FetchRejected NonError
                       | resp # _ \<Rightarrow> FetchResponse resp),
      clearTokenCache = (\<lambda>tr. None),
      initializeAuth = (\<lambda>tr. None),
      prepare = (\<lambda>tr modelId. Inr (js ''project'', ()))\<rparr>"

definition sampleRequest :: "unit stream_request" where
  "sampleRequest = \<lparr>model = js ''gemini-2.5-pro'', project = js ''project'', request = ()\<rparr>"

definition sampleEnv :: "bool \<Rightarrow> bool \<Rightarrow> Env" where
  "sampleEnv fakeThinkingAsContent autoSwitch =
     \<lparr>ENABLE_FAKE_THINKING = (if fakeThinkingAsContent then Some (js ''true'') else None),
      ENABLE_REAL_THINKING = None,
      STREAM_THINKING_AS_CONTENT = (if fakeThinkingAsContent then Some (js ''true'') else None),
      ENABLE_AUTO_MODEL_SWITCHING = (if autoSwitch then Some (js ''true'') else None)\<rparr>"

definition flashRequest :: "unit stream_request" where
  "flashRequest = \<lparr>model = js ''gemini-2.5-flash'', project = js ''project'', request = ()\<rparr>"

definition sampleTransformer :: transformer where
  "sampleTransformer =
     \<lparr>objectName = js ''chat.completion.chunk'', chatID = js ''chatcmpl-0'', creationTime = 0,
      transformer_model = js ''gemini-2.5-pro''\<rparr>"

section \<open>Properties of the frame reassembler\<close>

subsection \<open>Splitting at line feeds\<close>

lemma split_nl_nonempty: "split_nl s \<noteq> []"
  by (induction s) (auto split: list.splits)

lemma split_nl_append:
  "split_nl (x @ y) = butlast (split_nl x) @ split_nl (last (split_nl x) @ y)"
proof (induction x)
  case Nil
  show ?case by simp
next
  case (Cons c cs)
  obtain l ls where S: "split_nl cs = l # ls"
    using split_nl_nonempty [of cs] by (cases "split_nl cs") auto
  show ?case
  proof (cases "c = NL")
    case True
    then show ?thesis using Cons S by simp
  next
    case False
    show ?thesis
    proof (cases ls)
      case Nil
      then show ?thesis using Cons S False by simp
    next
      case (Cons a as)
      then show ?thesis using Cons.IH S False by simp
    qed
  qed
qed

lemma sseLines_append:
  "sseLines parse ob (xs @ ys) =
     (case sseLines parse ob xs of
        (ob', es) \<Rightarrow> (case sseLines parse ob' ys of (ob'', es') \<Rightarrow> (ob'', es @ es')))"
  by (induction xs arbitrary: ob) (auto split: prod.splits)

lemma last_split_nl_no_NL: "NL \<notin> set (last (split_nl s))"
  by (induction s) (auto split: list.splits simp: split_nl_nonempty)

lemma split_nl_no_NL: "NL \<notin> set b \<Longrightarrow> split_nl b = [b]"
  by (induction b) auto

lemma butlast_split_nl_append:
  "butlast (split_nl (x @ y)) = butlast (split_nl x) @ butlast (split_nl (last (split_nl x) @ y))"
  by (subst split_nl_append) (simp add: butlast_append split_nl_nonempty)

lemma last_split_nl_append:
  "last (split_nl (x @ y)) = last (split_nl (last (split_nl x) @ y))"
  by (subst split_nl_append) (simp add: split_nl_nonempty)

lemma sseReads_concat:
  "NL \<notin> set buffer \<Longrightarrow>
   sseReads parse buffer ob rs =
     (case sseLines parse ob (butlast (split_nl (buffer @ concat rs))) of
        (ob', es) \<Rightarrow> ((last (split_nl (buffer @ concat rs)), ob'), es))"
proof (induction rs arbitrary: buffer ob)
  case Nil
  then show ?case by (simp add: split_nl_no_NL)
next
  case (Cons v rest)
  have nl: "NL \<notin> set (last (split_nl (buffer @ v)))"
    by (rule last_split_nl_no_NL)
  have b: "butlast (split_nl (buffer @ concat (v # rest))) =
      butlast (split_nl (buffer @ v)) @ butlast (split_nl (last (split_nl (buffer @ v)) @ concat rest))"
    using butlast_split_nl_append [of "buffer @ v" "concat rest"] by simp
  have l: "last (split_nl (buffer @ concat (v # rest))) =
      last (split_nl (last (split_nl (buffer @ v)) @ concat rest))"
    using last_split_nl_append [of "buffer @ v" "concat rest"] by simp
  show ?case
    unfolding b l
    by (simp add: Cons.IH [OF nl] sseLines_append Let_def split: prod.splits)
qed

lemma parseSSEStream_concat:
  "parseSSEStream parse \<lparr>reads = rs, ending = e\<rparr> =
   parseSSEStream parse \<lparr>reads = [concat rs], ending = e\<rparr>"
  by (simp add: parseSSEStream_def sseReads_concat [of "[]" parse "[]"] Let_def del: sseReads.simps)

subsection \<open>Events and event buffers\<close>

lemma map_filter_append: "List.map_filter f (xs @ ys) = List.map_filter f xs @ List.map_filter f ys"
  by (simp add: List.map_filter_def)

lemma tryParse_Cons: "tryParse parse b @ List.map_filter parse bs = List.map_filter parse (b # bs)"
  by (simp add: tryParse_def map_filter_simps split: option.splits)

lemma tryParse_Some: "tryParse Some b = [b]"
  by (simp add: tryParse_def)

lemma sseLines_fst_parse:
  "fst (sseLines parse ob ls) = fst (sseLines Some ob ls)"
  by (induction ls arbitrary: ob) (simp_all add: case_prod_beta)

lemma sseLines_snd_parse:
  "snd (sseLines parse ob ls) = List.map_filter parse (snd (sseLines Some ob ls))"
  by (induction ls arbitrary: ob)
     (simp_all add: case_prod_beta tryParse_Cons tryParse_Some map_filter_simps)

lemma parseSSEStream_buffers:
  "parseSSEStream parse stream =
     (List.map_filter parse (fst (parseSSEStream Some stream)), ending stream)"
proof -
  let ?ls = "butlast (split_nl (concat (reads stream)))"
  have r: "sseReads p [] [] (reads stream) =
      ((last (split_nl (concat (reads stream))), fst (sseLines p [] ?ls)), snd (sseLines p [] ?ls))"
    for p :: "jsstring \<Rightarrow> 'b option"
    by (simp add: sseReads_concat [of "[]"] case_prod_beta)
  show ?thesis
    unfolding parseSSEStream_def r [of parse] r [of Some]
    by (cases "ending stream")
       (simp_all add: sseLines_fst_parse [of parse] sseLines_snd_parse [of parse]
          map_filter_append tryParse_Some tryParse_def map_filter_simps split: option.splits)
qed



subsection \<open>Complete lines and a trailing data line\<close>

lemma split_nl_snoc_NL: "split_nl (u @ [NL]) = split_nl u @ [[]]"
  by (induction u) (auto split: list.splits simp: split_nl_nonempty)

lemma split_nl_line_NL:
  "NL \<notin> set l \<Longrightarrow> split_nl (l @ [NL]) = [l, []]"
  by (simp add: split_nl_snoc_NL split_nl_no_NL)

lemma trim_nonempty: "\<not> isWhiteSpace c \<Longrightarrow> trim (c # s) \<noteq> []"
  unfolding trim_def by (auto simp: dropWhile_eq_Nil_conv)

lemma not_ws_d: "\<not> isWhiteSpace 100"
  by (simp add: isWhiteSpace_def)

lemma js_data_prefix: "js ''data: '' = [100, 97, 116, 97, 58, 32]"
  by (simp add: js_def)

lemma trim_data_line: "trim (js ''data: '' @ p) \<noteq> []"
  unfolding js_data_prefix using trim_nonempty [OF not_ws_d] by simp

lemma startsWith_append: "startsWith (q @ p) q"
  by (simp add: startsWith_def)

lemma sseLines_data_line:
  "sseLines parse ob [js ''data: '' @ p] = (ob @ p, [])"
  using trim_data_line [of p] by (simp add: startsWith_append) (simp add: js_def)

lemma NL_notin_data_prefix: "NL \<notin> set (js ''data: '')"
  by (simp add: js_def NL_def)

lemma sseReads_lines:
  "pendingBuffer parse rs = fst (sseLines parse [] (butlast (split_nl (concat rs))))"
  "yieldedSoFar parse rs = snd (sseLines parse [] (butlast (split_nl (concat rs))))"
  by (simp_all add: pendingBuffer_def yieldedSoFar_def sseReads_concat [of "[]"] case_prod_beta
      del: sseReads.simps)

lemma parseSSEStream_at_end:
  "parseSSEStream parse \<lparr>reads = rs, ending = None\<rparr> =
     (yieldedSoFar parse rs
        @ (if pendingBuffer parse rs \<noteq> [] then tryParse parse (pendingBuffer parse rs) else []),
      None)"
  by (simp add: parseSSEStream_def pendingBuffer_def yieldedSoFar_def case_prod_beta)

lemma complete_lines_last:
  assumes "pre = [] \<or> last pre = NL"
  shows "last (split_nl pre) = []"
proof (cases "pre = []")
  case True
  then show ?thesis by simp
next
  case False
  with assms have "pre = butlast pre @ [NL]"
    by (metis append_butlast_last_id)
  then have "split_nl pre = split_nl (butlast pre) @ [[]]"
    by (metis split_nl_snoc_NL)
  then show ?thesis by simp
qed

lemma trailing_data_line_state:
  assumes cut: "concat rs = pre @ js ''data: '' @ p @ [NL]"
    and complete: "pre = [] \<or> last pre = NL"
    and line: "NL \<notin> set p"
  shows "pendingBuffer parse rs = pendingBuffer parse [pre] @ p"
    and "yieldedSoFar parse rs = yieldedSoFar parse [pre]"
proof -
  let ?L = "butlast (split_nl pre)"
  have l: "last (split_nl pre) = []"
    by (rule complete_lines_last [OF complete])
  have "NL \<notin> set (js ''data: '' @ p)"
    using line NL_notin_data_prefix by simp
  then have "split_nl ((js ''data: '' @ p) @ [NL]) = [js ''data: '' @ p, []]"
    by (rule split_nl_line_NL)
  then have sp: "butlast (split_nl (concat rs)) = ?L @ [js ''data: '' @ p]"
    unfolding cut by (subst split_nl_append) (simp add: l butlast_append)
  have whole: "sseLines parse [] (butlast (split_nl (concat rs))) =
      (fst (sseLines parse [] ?L) @ p, snd (sseLines parse [] ?L))"
    unfolding sp sseLines_append
    by (simp add: case_prod_beta sseLines_data_line del: sseLines.simps)
  have one: "concat [pre] = pre" by simp
  show "pendingBuffer parse rs = pendingBuffer parse [pre] @ p"
    unfolding sseReads_lines whole one by simp
  show "yieldedSoFar parse rs = yieldedSoFar parse [pre]"
    unfolding sseReads_lines whole one by simp
qed

lemma sseLines_blank_line_last:
  "trim b = [] \<Longrightarrow> fst (sseLines parse ob (ls @ [b])) = []"
  by (induction ls arbitrary: ob) (simp_all add: case_prod_beta)

lemma pendingBuffer_after_blank_line:
  assumes "v = [] \<or> last v = NL" and "NL \<notin> set b" and "trim b = []"
  shows "pendingBuffer parse [v @ b @ [NL]] = []"
proof -
  have l: "last (split_nl v) = []"
    by (rule complete_lines_last [OF assms(1)])
  have "split_nl (b @ [NL]) = [b, []]"
    by (rule split_nl_line_NL [OF assms(2)])
  then have "butlast (split_nl (v @ b @ [NL])) = butlast (split_nl v) @ [b]"
    by (subst split_nl_append) (simp add: l butlast_append)
  then show ?thesis
    by (simp add: sseReads_lines sseLines_blank_line_last [OF assms(3)] del: sseLines.simps)
qed

text \<open>Framing with CR LF: the blank line \<open>\r\<close> ends the first event as well.\<close>

lemma crlf_framing_example:
  "parseSSEStream parse
      \<lparr>reads = [[100, 97, 116, 97, 58, 32, 97, 13, 10, 13, 10, 100, 97, 116, 97, 58, 32, 98, 13, 10]],
       ending = None\<rparr>
     = (tryParse parse [97, 13] @ tryParse parse [98, 13], None)"
  by (simp add: parseSSEStream_def js_def NL_def trim_def isWhiteSpace_def startsWith_def)

subsection \<open>Claims about the frame reassembler\<close>

text \<open>
  Claim C7. However the text of the stream is cut into reads, \<open>parseSSEStream\<close> yields the
  same events, and ends the same way, as when the whole text arrives in a single read.
\<close>

theorem parseSSEStream_read_boundary_independent:
  "parseSSEStream parse \<lparr>reads = rs, ending = e\<rparr> =
   parseSSEStream parse \<lparr>reads = [concat rs], ending = e\<rparr>"
  by (rule parseSSEStream_concat)

text \<open>
  Claim C8. The event buffers of an input are the values of \<open>objectBuffer\<close> that the
  reassembler hands to \<open>JSON.parse\<close>, which is what it yields when the parser is \<open>Some\<close>.
  When a malformed buffer \<open>b\<close> stands between two well-formed buffers \<open>a\<close> and \<open>c\<close>, the
  events of \<open>a\<close> and \<open>c\<close> are both yielded, in this order and next to each other, the
  buffers before and after them are handled as usual, and the generator ends as the stream
  does.
\<close>

theorem malformed_event_skipped:
  assumes "fst (parseSSEStream Some stream) = bs1 @ [a, b, c] @ bs2"
    and "parse a = Some x" and "parse b = None" and "parse c = Some z"
  shows "parseSSEStream parse stream =
    (List.map_filter parse bs1 @ [x, z] @ List.map_filter parse bs2, ending stream)"
  using assms
  by (subst parseSSEStream_buffers) (simp add: map_filter_append map_filter_simps)

theorem malformed_event_skipped_witness:
  "fst (parseSSEStream Some
      \<lparr>reads = [js ''data: {1}\<newline>\<newline>da'', js ''ta: {bad\<newline>\<newline>data: {2}\<newline>\<newline>''], ending = None\<rparr>)
     = [] @ [js ''{1}'', js ''{bad'', js ''{2}''] @ []
   \<and> sampleParse (js ''{1}'') = Some 1 \<and> sampleParse (js ''{bad'') = None
   \<and> sampleParse (js ''{2}'') = Some 2
   \<and> parseSSEStream sampleParse
      \<lparr>reads = [js ''data: {1}\<newline>\<newline>da'', js ''ta: {bad\<newline>\<newline>data: {2}\<newline>\<newline>''], ending = None\<rparr>
     = ([1, 2], None)"
proof -
  let ?strm = "\<lparr>reads = [js ''data: {1}\<newline>\<newline>da'', js ''ta: {bad\<newline>\<newline>data: {2}\<newline>\<newline>''], ending = None\<rparr>"
  have h: "fst (parseSSEStream Some ?strm) = [] @ [js ''{1}'', js ''{bad'', js ''{2}''] @ []"
    by (simp add: parseSSEStream_def js_def NL_def trim_def isWhiteSpace_def startsWith_def
        tryParse_def)
  have a: "sampleParse (js ''{1}'') = Some 1" and b: "sampleParse (js ''{bad'') = None"
    and c: "sampleParse (js ''{2}'') = Some 2"
    by (simp_all add: sampleParse_def js_def)
  show ?thesis
    using h a b c malformed_event_skipped [OF h a b c] by (simp add: map_filter_simps)
qed

text \<open>
  Claim C9, as the code has it. When the stream consists of complete lines \<open>pre\<close>
  followed by a newline-terminated line \<open>data: p\<close> and then ends, the buffer parsed at
  the end is what \<open>pre\<close> left pending followed by \<open>p\<close>: when it is not empty, it is
  parsed and its event, if the parse succeeds, is yielded last, after the events yielded
  during \<open>pre\<close>. So when nothing is pending after \<open>pre\<close> (the line starts a new event)
  and \<open>p\<close> is a non-empty text that parses, the event encoded on the line is yielded.
\<close>

theorem trailing_data_line_parsed_at_end:
  assumes cut: "concat rs = pre @ js ''data: '' @ p @ [NL]"
    and complete: "pre = [] \<or> last pre = NL"
    and line: "NL \<notin> set p"
  shows
    "parseSSEStream parse \<lparr>reads = rs, ending = None\<rparr> =
       (yieldedSoFar parse [pre]
          @ (if pendingBuffer parse [pre] @ p \<noteq> []
             then tryParse parse (pendingBuffer parse [pre] @ p) else []),
        None)
     \<and> (pendingBuffer parse [pre] = [] \<and> p \<noteq> [] \<and> parse p = Some e \<longrightarrow>
          parseSSEStream parse \<lparr>reads = rs, ending = None\<rparr> =
            (yieldedSoFar parse [pre] @ [e], None))"
  unfolding parseSSEStream_at_end [of parse rs]
    trailing_data_line_state [OF cut complete line, of parse]
  by (simp add: tryParse_def)

theorem trailing_data_line_parsed_at_end_witness:
  "parseSSEStream sampleParse
      \<lparr>reads = [js ''data: {1}\<newline> \<newline>event: x\<newline>data'', js '': {2}\<newline>''], ending = None\<rparr>
     = ([1, 2], None)"
proof -
  let ?pre = "js ''data: {1}\<newline> \<newline>event: x\<newline>''"
  have cut: "concat [js ''data: {1}\<newline> \<newline>event: x\<newline>data'', js '': {2}\<newline>''] =
      ?pre @ js ''data: '' @ js ''{2}'' @ [NL]"
    by (simp add: js_def NL_def)
  have complete: "?pre = [] \<or> last ?pre = NL"
    by (simp add: js_def NL_def)
  have line: "NL \<notin> set (js ''{2}'')"
    by (simp add: js_def NL_def)
  have pending: "pendingBuffer sampleParse [?pre] = []"
    and yielded: "yieldedSoFar sampleParse [?pre] = [1]"
    by (simp_all add: pendingBuffer_def yieldedSoFar_def js_def NL_def trim_def isWhiteSpace_def
        startsWith_def tryParse_def sampleParse_def)
  have ne: "js ''{2}'' \<noteq> []" and ok: "sampleParse (js ''{2}'') = Some 2"
    by (simp_all add: sampleParse_def js_def)
  from trailing_data_line_parsed_at_end
      [where pre = ?pre and p = "js ''{2}''" and parse = sampleParse and e = 2,
        OF cut complete line]
  have "parseSSEStream sampleParse
      \<lparr>reads = [js ''data: {1}\<newline> \<newline>event: x\<newline>data'', js '': {2}\<newline>''], ending = None\<rparr>
     = (yieldedSoFar sampleParse [?pre] @ [2], None)"
    using pending ne ok by blast
  then show ?thesis by (simp only: yielded) simp
qed

text \<open>
  The claim as stated fails when another data line precedes the last one with no blank
  line between them: the two payloads are parsed as one text, and the event encoded on
  the last line is not yielded.
\<close>

theorem consecutive_data_lines_concatenated:
  "sampleParse (js ''{2}'') = Some 2
   \<and> parseSSEStream sampleParse
      \<lparr>reads = [js ''data: {1}\<newline>data: {2}\<newline>''], ending = None\<rparr> = ([], None)"
  by (simp add: parseSSEStream_def js_def NL_def trim_def isWhiteSpace_def startsWith_def
      tryParse_def sampleParse_def)

section \<open>Properties of the thinking-channel state machine\<close>

subsection \<open>Counting delimiters\<close>

lemma yieldThinkingContent_counts:
  "count_list (fst (yieldThinkingContent st s)) OpenDelimiter + started st
     = started (snd (yieldThinkingContent st s))"
  "count_list (fst (yieldThinkingContent st s)) CloseDelimiter = 0"
  "hasClosedThinking (snd (yieldThinkingContent st s)) = hasClosedThinking st"
  "hasStartedThinking (snd (yieldThinkingContent st s))"
  by (simp_all add: yieldThinkingContent_def started_def)

lemma handlePart_open:
  "count_list (fst (handlePart n r st p)) OpenDelimiter + started st
     = started (snd (handlePart n r st p))"
  by (auto simp: handlePart_def yieldThinkingContent_def started_def Let_def
      split: option.splits prod.splits)

lemma handlePart_close:
  "count_list (fst (handlePart n r st p)) CloseDelimiter + closed st
     = closed (snd (handlePart n r st p))"
  by (auto simp: handlePart_def yieldThinkingContent_def closed_def Let_def
      split: option.splits prod.splits)

lemma handlePart_not_content:
  "\<not> r \<Longrightarrow> hasStartedThinking (snd (handlePart n r st p)) = hasStartedThinking st"
  by (auto simp: handlePart_def Let_def split: option.splits prod.splits)


lemma handleParts_open:
  "count_list (fst (handleParts n r st ps)) OpenDelimiter + started st
     = started (snd (handleParts n r st ps))"
proof (induction ps arbitrary: st)
  case Nil
  show ?case by simp
next
  case (Cons p ps)
  show ?case
    using handlePart_open [of n r st p] Cons.IH [of "snd (handlePart n r st p)"]
    by (simp add: case_prod_beta)
qed

lemma handleParts_close:
  "count_list (fst (handleParts n r st ps)) CloseDelimiter + closed st
     = closed (snd (handleParts n r st ps))"
proof (induction ps arbitrary: st)
  case Nil
  show ?case by simp
next
  case (Cons p ps)
  show ?case
    using handlePart_close [of n r st p] Cons.IH [of "snd (handlePart n r st p)"]
    by (simp add: case_prod_beta)
qed

lemma handleEvent_open:
  "count_list (fst (handleEvent n r st ev)) OpenDelimiter + started st
     = started (snd (handleEvent n r st ev))"
  using handleParts_open [of n r st]
  by (simp add: handleEvent_def case_prod_beta split: option.splits)

lemma handleEvent_close:
  "count_list (fst (handleEvent n r st ev)) CloseDelimiter + closed st
     = closed (snd (handleEvent n r st ev))"
  using handleParts_close [of n r st]
  by (simp add: handleEvent_def case_prod_beta split: option.splits)

lemma handleEvents_open:
  "count_list (fst (handleEvents n r st evs)) OpenDelimiter + started st
     = started (snd (handleEvents n r st evs))"
proof (induction evs arbitrary: st)
  case Nil
  show ?case by simp
next
  case (Cons ev evs)
  show ?case
    using handleEvent_open [of n r st ev] Cons.IH [of "snd (handleEvent n r st ev)"]
    by (simp add: case_prod_beta)
qed

lemma handleEvents_close:
  "count_list (fst (handleEvents n r st evs)) CloseDelimiter + closed st
     = closed (snd (handleEvents n r st evs))"
proof (induction evs arbitrary: st)
  case Nil
  show ?case by simp
next
  case (Cons ev evs)
  show ?case
    using handleEvent_close [of n r st ev] Cons.IH [of "snd (handleEvent n r st ev)"]
    by (simp add: case_prod_beta)
qed

lemma handleParts_not_content:
  "\<not> r \<Longrightarrow> hasStartedThinking (snd (handleParts n r st ps)) = hasStartedThinking st"
  by (induction ps arbitrary: st) (simp_all add: case_prod_beta handlePart_not_content)

lemma handleEvent_not_content:
  "\<not> r \<Longrightarrow> hasStartedThinking (snd (handleEvent n r st ev)) = hasStartedThinking st"
  by (simp add: handleEvent_def case_prod_beta handleParts_not_content split: option.splits)

lemma handleEvents_not_content:
  "\<not> r \<Longrightarrow> hasStartedThinking (snd (handleEvents n r st evs)) = hasStartedThinking st"
  by (induction evs arbitrary: st) (simp_all add: case_prod_beta handleEvent_not_content)

lemma started_le: "started st \<le> 1" and closed_le: "closed st \<le> 1"
  by (simp_all add: started_def closed_def)

lemma consumeBody_open: "count_list (fst (consumeBody parse n r b)) OpenDelimiter \<le> 1"
proof -
  let ?st = "\<lparr>hasClosedThinking = False, hasStartedThinking = False\<rparr>"
  have "count_list (fst (handleEvents n r ?st evs)) OpenDelimiter \<le> 1" for evs
    using handleEvents_open [of n r ?st evs] started_le [of "snd (handleEvents n r ?st evs)"]
    by simp
  then show ?thesis by (simp add: consumeBody_def case_prod_beta)
qed

lemma consumeBody_close: "count_list (fst (consumeBody parse n r b)) CloseDelimiter \<le> 1"
proof -
  let ?st = "\<lparr>hasClosedThinking = False, hasStartedThinking = False\<rparr>"
  have "count_list (fst (handleEvents n r ?st evs)) CloseDelimiter \<le> 1" for evs
    using handleEvents_close [of n r ?st evs] closed_le [of "snd (handleEvents n r ?st evs)"]
    by simp
  then show ?thesis by (simp add: consumeBody_def case_prod_beta)
qed

lemma consumeBody_no_open:
  "\<not> r \<Longrightarrow> count_list (fst (consumeBody parse n r b)) OpenDelimiter = 0"
proof -
  assume nr: "\<not> r"
  let ?st = "\<lparr>hasClosedThinking = False, hasStartedThinking = False\<rparr>"
  have "count_list (fst (handleEvents n r ?st evs)) OpenDelimiter = 0" for evs
    using handleEvents_open [of n r ?st evs] handleEvents_not_content [OF nr, of n ?st evs]
    by (simp add: started_def)
  then show ?thesis by (simp add: consumeBody_def case_prod_beta)
qed

text \<open>A call with \<open>isRetry\<close> set makes no further call.\<close>

lemma performStreamRequest_retry:
  "performStreamRequest parse w env req n True r om tr =
     (case fetch w tr req of
        FetchRejected e \<Rightarrow> ([], Some e, tr @ [Fetch req])
      | FetchResponse resp \<Rightarrow>
          if \<not> response_ok resp then
            (case responseTextFailure resp of
               Some e \<Rightarrow> ([], Some e, tr @ [Fetch req])
             | None \<Rightarrow> ([], Some (streamRequestFailed (status resp)), tr @ [Fetch req]))
          else
            (case body resp of
               None \<Rightarrow> ([], Some (JsError (js ''Response has no body'')), tr @ [Fetch req])
             | Some b \<Rightarrow>
                 (fst (consumeBody parse n r b), snd (consumeBody parse n r b), tr @ [Fetch req])))"
  by (subst performStreamRequest.simps)
     (simp add: fallbackDecision_def case_prod_beta split: fetch_result.splits option.splits)

lemma retry_open:
  "count_list (fst (performStreamRequest parse w env req n True r om tr)) OpenDelimiter \<le> 1"
  "\<not> r \<Longrightarrow> count_list (fst (performStreamRequest parse w env req n True r om tr)) OpenDelimiter = 0"
  "count_list (fst (performStreamRequest parse w env req n True r om tr)) CloseDelimiter \<le> 1"
  using consumeBody_open [of parse n r] consumeBody_close [of parse n r]
  by (simp_all add: performStreamRequest_retry consumeBody_no_open
      split: fetch_result.splits option.splits)

lemma performStreamRequest_delims:
  "count_list (fst (performStreamRequest parse w env req n ir r om tr)) OpenDelimiter \<le> 1"
  "\<not> r \<Longrightarrow> count_list (fst (performStreamRequest parse w env req n ir r om tr)) OpenDelimiter = 0"
  "count_list (fst (performStreamRequest parse w env req n ir r om tr)) CloseDelimiter \<le> 1"
proof -
  show "count_list (fst (performStreamRequest parse w env req n ir r om tr)) OpenDelimiter \<le> 1"
  proof (cases ir)
    case True
    then show ?thesis using retry_open(1) [of parse w env req n r om tr] by simp
  next
    case False
    show ?thesis
      using consumeBody_open [of parse n r] retry_open(1) [of parse w env _ n r om]
      by (subst performStreamRequest.simps)
         (simp add: case_prod_beta split: fetch_result.splits option.splits)
  qed
  show "count_list (fst (performStreamRequest parse w env req n ir r om tr)) CloseDelimiter \<le> 1"
  proof (cases ir)
    case True
    then show ?thesis using retry_open(3) [of parse w env req n r om tr] by simp
  next
    case False
    show ?thesis
      using consumeBody_close [of parse n r] retry_open(3) [of parse w env _ n r om]
      by (subst performStreamRequest.simps)
         (simp add: case_prod_beta split: fetch_result.splits option.splits)
  qed
  show "count_list (fst (performStreamRequest parse w env req n ir r om tr)) OpenDelimiter = 0"
    if nr: "\<not> r"
  proof (cases ir)
    case True
    then show ?thesis using nr by (simp add: retry_open)
  next
    case False
    show ?thesis
      using nr
      by (subst performStreamRequest.simps)
         (simp add: case_prod_beta consumeBody_no_open retry_open(2)
            split: fetch_result.splits option.splits)
  qed
qed

lemma count_list_map_Fragment:
  "count_list (map (\<lambda>x. Fragment (f x)) xs) OpenDelimiter = 0"
  "count_list (map (\<lambda>x. Fragment (f x)) xs) CloseDelimiter = 0"
  by (induction xs) simp_all

lemma generateReasoningOutput_delims:
  "count_list (generateReasoningOutput texts c) OpenDelimiter = (if c then 1 else 0)"
  "count_list (generateReasoningOutput texts c) CloseDelimiter = 0"
  by (simp_all add: generateReasoningOutput_def count_list_map_Fragment)

lemma streamContent_delimiter_counts:
  "count_list (fst (streamContent parse w env modelId includeReasoningOption reasoningTexts tr))
      OpenDelimiter \<le> 1 \<and>
   count_list (fst (streamContent parse w env modelId includeReasoningOption reasoningTexts tr))
      CloseDelimiter \<le> 1"
proof (cases "prepare w tr modelId")
  case (Inl e)
  then show ?thesis by (simp add: streamContent_def)
next
  case (Inr pr)
  obtain projectId rq where pr: "pr = (projectId, rq)" by (cases pr)
  let ?req = "\<lparr>model = modelId, project = projectId, request = rq\<rparr>"
  let ?asContent = "STREAM_THINKING_AS_CONTENT env = Some (js ''true'')"
  let ?incl = "includeReasoningOption = Some True"
  let ?fake = "isThinkingModel modelId \<and> ENABLE_FAKE_THINKING env = Some (js ''true'') \<and> \<not> ?incl"
  define run where "run = performStreamRequest parse w env ?req (?fake \<and> ?asContent) False
      (?incl \<and> ?asContent) (Some modelId) tr"
  define prelude where
    "prelude = (if ?fake then generateReasoningOutput reasoningTexts ?asContent else [])"
  have out: "fst (streamContent parse w env modelId includeReasoningOption reasoningTexts tr) =
      prelude @ fst run"
    using Inr pr by (simp add: streamContent_def Let_def case_prod_beta run_def prelude_def)
  have c: "count_list (fst run) CloseDelimiter \<le> 1"
    unfolding run_def by (rule performStreamRequest_delims(3))
  have o: "count_list (fst run) OpenDelimiter \<le> 1"
    unfolding run_def by (rule performStreamRequest_delims(1))
  have o0: "count_list (fst run) OpenDelimiter = 0" if "?fake"
    unfolding run_def using that by (intro performStreamRequest_delims(2)) simp
  have p: "count_list prelude CloseDelimiter = 0" "count_list prelude OpenDelimiter \<le> 1"
    "\<not> ?fake \<Longrightarrow> count_list prelude OpenDelimiter = 0"
    by (simp_all add: prelude_def generateReasoningOutput_delims)
  show ?thesis
  proof (cases "?fake")
    case True
    with o0 have "count_list (fst run) OpenDelimiter = 0" by blast
    with c p show ?thesis unfolding out by simp
  next
    case False
    with p(3) have "count_list prelude OpenDelimiter = 0" by blast
    with c o p(1) show ?thesis unfolding out by simp
  qed
qed

text \<open>
  Claim C1. In what one call of \<open>streamContent\<close> yields (the synthetic prelude followed
  by \<open>performStreamRequest\<close> with its retry or fallback attempt), the opening delimiter
  is yielded at most once and the closing delimiter at most once, whatever the upstream
  sends.
\<close>

theorem streamContent_delimiters_at_most_once:
  "count_list (fst (streamContent parse w env modelId includeReasoningOption reasoningTexts tr))
      OpenDelimiter \<le> 1 \<and>
   count_list (fst (streamContent parse w env modelId includeReasoningOption reasoningTexts tr))
      CloseDelimiter \<le> 1"
  by (rule streamContent_delimiter_counts)

text \<open>
  The same bound on the chunks that the consumer receives: when no fragment of the run
  has the text of a delimiter as its own data, at most one chunk is the opening delimiter
  chunk and at most one is the closing delimiter chunk.
\<close>

lemma delimiter_chunks_differ: "chunk_of OpenDelimiter \<noteq> chunk_of CloseDelimiter"
  by (simp add: thinkingContentChunk_def js_def)

lemma count_chunk_of_open:
  "\<forall>c. Fragment c \<in> set out \<longrightarrow> c \<noteq> chunk_of OpenDelimiter \<Longrightarrow>
   count_list (map chunk_of out) (chunk_of OpenDelimiter) = count_list out OpenDelimiter"
proof (induction out)
  case Nil
  show ?case by simp
next
  case (Cons e es)
  then have IH: "count_list (map chunk_of es) (chunk_of OpenDelimiter) = count_list es OpenDelimiter"
    by simp
  show ?case
  proof (cases e)
    case OpenDelimiter
    with IH show ?thesis by (simp del: chunk_of.simps)
  next
    case CloseDelimiter
    with IH delimiter_chunks_differ show ?thesis by (simp del: chunk_of.simps)
  next
    case (Fragment c)
    with Cons.prems have "c \<noteq> chunk_of OpenDelimiter" by simp
    with Fragment IH show ?thesis by (simp del: chunk_of.simps(1,2))
  qed
qed

lemma count_chunk_of_close:
  "\<forall>c. Fragment c \<in> set out \<longrightarrow> c \<noteq> chunk_of CloseDelimiter \<Longrightarrow>
   count_list (map chunk_of out) (chunk_of CloseDelimiter) = count_list out CloseDelimiter"
proof (induction out)
  case Nil
  show ?case by simp
next
  case (Cons e es)
  then have IH: "count_list (map chunk_of es) (chunk_of CloseDelimiter) = count_list es CloseDelimiter"
    by simp
  show ?case
  proof (cases e)
    case OpenDelimiter
    with IH delimiter_chunks_differ show ?thesis by (simp del: chunk_of.simps)
  next
    case CloseDelimiter
    with IH show ?thesis by (simp del: chunk_of.simps)
  next
    case (Fragment c)
    with Cons.prems have "c \<noteq> chunk_of CloseDelimiter" by simp
    with Fragment IH show ?thesis by (simp del: chunk_of.simps(1,2))
  qed
qed

lemma streamContent_delimiter_chunks:
  assumes "out = fst (streamContent parse w env modelId includeReasoningOption reasoningTexts tr)"
    and "\<forall>c. Fragment c \<in> set out \<longrightarrow> c \<noteq> chunk_of OpenDelimiter"
    and "\<forall>c. Fragment c \<in> set out \<longrightarrow> c \<noteq> chunk_of CloseDelimiter"
  shows "count_list (map chunk_of out) (chunk_of OpenDelimiter) \<le> 1
    \<and> count_list (map chunk_of out) (chunk_of CloseDelimiter) \<le> 1"
  unfolding count_chunk_of_open [OF assms(2)] count_chunk_of_close [OF assms(3)]
  unfolding assms(1) by (rule streamContent_delimiter_counts)

section \<open>Properties of the classifier\<close>

subsection \<open>Legacy thinking tags\<close>

lemma js_open_tag: "js ''<think>'' = [60, 116, 104, 105, 110, 107, 62]"
  by (simp add: js_def)

lemma js_close_tag: "js ''</think>'' = [60, 47, 116, 104, 105, 110, 107, 62]"
  by (simp add: js_def)

lemma length_close_tag: "length (js ''</think>'') = 8"
  by (simp add: js_def)

lemma indexOf_prefix: "p \<noteq> [] \<Longrightarrow> indexOf (p @ x) p = Some 0"
  by (cases p) (simp_all add: startsWith_def)

lemma startsWith_longer:
  "length p \<le> length a \<Longrightarrow> startsWith (a @ x) p \<longleftrightarrow> startsWith a p"
  by (simp add: startsWith_def)

text \<open>The closing tag has no border: it cannot begin inside a text and end in a copy of itself.\<close>

lemma close_tag_no_border:
  assumes "a \<noteq> []" and "\<not> startsWith a (js ''</think>'')"
  shows "\<not> startsWith (a @ js ''</think>'' @ x) (js ''</think>'')"
proof (cases "8 \<le> length a")
  case True
  then show ?thesis
    using assms(2) startsWith_longer [of "js ''</think>''" a] by (simp add: js_close_tag)
next
  case False
  then have len: "length a < 8" by simp
  show ?thesis
  proof
    assume "startsWith (a @ js ''</think>'' @ x) (js ''</think>'')"
    then have eq: "take 8 (a @ js ''</think>'' @ x) = js ''</think>''"
      unfolding startsWith_def length_close_tag .
    have "take 8 (a @ js ''</think>'' @ x) ! length a = 60"
      using len by (simp add: nth_append js_close_tag)
    with eq have k: "js ''</think>'' ! length a = 60" by simp
    from assms(1) have "0 < length a" by simp
    with len consider "length a = 1" | "length a = 2" | "length a = 3" | "length a = 4"
      | "length a = 5" | "length a = 6" | "length a = 7" by linarith
    then show False using k by cases (simp_all add: js_close_tag)
  qed
qed

lemma indexOf_close_tag:
  "\<not> includes_str a (js ''</think>'') \<Longrightarrow>
   indexOf (a @ js ''</think>'' @ x) (js ''</think>'') = Some (length a)"
proof (induction a)
  case Nil
  show ?case using indexOf_prefix [of "js ''</think>''" x] by (simp add: js_close_tag)
next
  case (Cons c cs)
  from Cons.prems have ns: "\<not> startsWith (c # cs) (js ''</think>'')"
    and ni: "\<not> includes_str cs (js ''</think>'')"
    by (auto simp: includes_str_def split: if_splits)
  have "\<not> startsWith ((c # cs) @ js ''</think>'' @ x) (js ''</think>'')"
    using close_tag_no_border [OF _ ns] by simp
  then show ?case using Cons.IH [OF ni] by simp
qed

lemma thinkingMatch_tagged:
  "\<not> includes_str a (js ''</think>'') \<Longrightarrow>
   thinkingMatch (js ''<think>'' @ a @ js ''</think>'' @ b) = Some a"
proof -
  assume na: "\<not> includes_str a (js ''</think>'')"
  have i: "indexOf (js ''<think>'' @ a @ js ''</think>'' @ b) (js ''<think>'') = Some 0"
    using indexOf_prefix [of "js ''<think>''" "a @ js ''</think>'' @ b"] by (simp add: js_open_tag)
  have d: "drop (0 + 7) (js ''<think>'' @ a @ js ''</think>'' @ b) = a @ js ''</think>'' @ b"
    by (simp add: js_open_tag)
  show ?thesis
    unfolding thinkingMatch_def
    by (simp only: i d option.case Let_def indexOf_close_tag [OF na]) simp
qed

lemma removeThink_no_match: "thinkingMatch b = None \<Longrightarrow> removeThink b = b"
  by (subst removeThink.simps) (auto simp: thinkingMatch_def Let_def split: option.splits)

lemma removeThink_tagged:
  assumes "\<not> includes_str a (js ''</think>'')" and "thinkingMatch b = None"
  shows "removeThink (js ''<think>'' @ a @ js ''</think>'' @ b) = b"
proof -
  have i: "indexOf (js ''<think>'' @ a @ js ''</think>'' @ b) (js ''<think>'') = Some 0"
    using indexOf_prefix [of "js ''<think>''" "a @ js ''</think>'' @ b"] by (simp add: js_open_tag)
  have d: "drop (0 + 7) (js ''<think>'' @ a @ js ''</think>'' @ b) = a @ js ''</think>'' @ b"
    by (simp add: js_open_tag)
  have e: "drop (length a + 8) (a @ js ''</think>'' @ b) = b"
    by (simp add: js_close_tag)
  show ?thesis
    by (subst removeThink.simps)
       (simp only: i d option.case indexOf_close_tag [OF assms(1)] e take_0 append_Nil
          removeThink_no_match [OF assms(2)])
qed

lemma includes_open_tag: "includes_str (js ''<think>'' @ x) (js ''<think>'')"
  using indexOf_prefix [of "js ''<think>''" x] by (simp add: includes_str_def js_open_tag)

text \<open>
  Claim C4. A part that is not marked as a thought and whose text is \<open><think>a</think>b\<close>,
  where \<open>a\<close> contains no closing tag and \<open>b\<close> no further closed tag pair, yields a thought
  fragment with the content \<open>a\<close> (a thinking-as-content chunk, after the opening delimiter
  if it is the first, or a real-thinking chunk, by the delivery mode) and then, when the
  trimmed \<open>b\<close> is not empty, a text fragment with the trimmed \<open>b\<close> (after the closing
  delimiter when thinking is delivered as content and not yet closed).
\<close>

theorem legacy_tagged_part_classified:
  assumes "part_text part = Some (js ''<think>'' @ a @ js ''</think>'' @ b)"
    and "part_thought part \<noteq> Some True"
    and "\<not> includes_str a (js ''</think>'')"
    and "thinkingMatch b = None"
  shows "fst (handlePart needsThinkingClose realThinkingAsContent st part) =
    (if realThinkingAsContent then
       (if hasStartedThinking st then [] else [OpenDelimiter])
       @ [Fragment (thinkingContentChunk a)]
       @ (if trim b = [] then []
          else (if hasClosedThinking st then [] else [CloseDelimiter])
               @ [Fragment (textChunk (trim b))])
     else
       [Fragment (realThinkingChunk a)]
       @ (if trim b = [] then [] else [Fragment (textChunk (trim b))]))"
proof -
  have ne: "js ''<think>'' @ a @ js ''</think>'' @ b \<noteq> []" by (simp add: js_open_tag)
  show ?thesis
    using assms(1,2) ne
    by (simp add: handlePart_def includes_open_tag thinkingMatch_tagged [OF assms(3)]
        removeThink_tagged [OF assms(3,4)] yieldThinkingContent_def Let_def)
qed

theorem legacy_tagged_part_classified_witness:
  "fst (handlePart False True \<lparr>hasClosedThinking = False, hasStartedThinking = False\<rparr>
         \<lparr>part_text = Some (js ''<think>plan</think> answer ''), part_thought = None\<rparr>) =
     [OpenDelimiter, Fragment (thinkingContentChunk (js ''plan'')), CloseDelimiter,
      Fragment (textChunk (js ''answer''))]"
proof -
  have t: "part_text \<lparr>part_text = Some (js ''<think>plan</think> answer ''), part_thought = None\<rparr>
      = Some (js ''<think>'' @ js ''plan'' @ js ''</think>'' @ js '' answer '')"
    by (simp add: js_def)
  have th: "part_thought \<lparr>part_text = Some (js ''<think>plan</think> answer ''), part_thought = None\<rparr>
      \<noteq> Some True"
    by simp
  have a: "\<not> includes_str (js ''plan'') (js ''</think>'')"
    by (simp add: includes_str_def js_def startsWith_def)
  have b: "thinkingMatch (js '' answer '') = None"
    by (simp add: thinkingMatch_def js_def startsWith_def)
  have tr: "trim (js '' answer '') = js ''answer''"
    by (simp add: trim_def js_def isWhiteSpace_def)
  have ne: "js ''answer'' \<noteq> []"
    by (simp add: js_def)
  show ?thesis
    using legacy_tagged_part_classified [OF t th a b, of False True
        "\<lparr>hasClosedThinking = False, hasStartedThinking = False\<rparr>"] ne
    by (simp add: tr)
qed

section \<open>Properties of the fallback/retry controller\<close>

subsection \<open>One attempt, one retry\<close>

lemma retry_trace:
  "snd (snd (performStreamRequest parse w env req n True r om tr)) = tr @ [Fetch req]"
  by (simp add: performStreamRequest_retry split: fetch_result.splits option.splits)

lemma retry_failed:
  "fetch w tr req = FetchResponse r1 \<Longrightarrow> \<not> response_ok r1 \<Longrightarrow> responseTextFailure r1 = None \<Longrightarrow>
   performStreamRequest parse w env req n True r om tr =
     ([], Some (streamRequestFailed (status r1)), tr @ [Fetch req])"
  by (simp add: performStreamRequest_retry)

lemma retry_succeeded:
  "fetch w tr req = FetchResponse r1 \<Longrightarrow> response_ok r1 \<Longrightarrow> body r1 = Some b \<Longrightarrow>
   performStreamRequest parse w env req n True r om tr =
     (fst (consumeBody parse n r b), snd (consumeBody parse n r b), tr @ [Fetch req])"
  by (simp add: performStreamRequest_retry)

lemma streamRequestFailed_401:
  "streamRequestFailed 401 = JsError (js ''Stream request failed: 401'')"
  by (simp add: streamRequestFailed_def decimal.simps js_def)

lemma performStreamRequest_401:
  assumes "fetch w tr req = FetchResponse r0" and "status r0 = 401"
    and "clearTokenCache w (tr @ [Fetch req]) = None"
    and "initializeAuth w (tr @ [Fetch req, ClearTokenCache]) = None"
  shows "performStreamRequest parse w env req n False r om tr =
    performStreamRequest parse w env req n True r om
      (tr @ [Fetch req, ClearTokenCache, InitializeAuth])"
  using assms by (subst performStreamRequest.simps) (simp add: response_ok_def)

lemma rate_limit_not_ok:
  "isRateLimitStatus s \<Longrightarrow> s \<noteq> 401 \<and> \<not> (200 \<le> s \<and> s \<le> 299)"
  by (auto simp: isRateLimitStatus_def RATE_LIMIT_STATUS_CODES_def)

lemma objectPrototypeMember_nonempty: "objectPrototypeMember [] = None"
  by (simp add: objectPrototypeMember_def js_def)

lemma getFallbackModel_nonempty: "getFallbackModel m = Some fb \<Longrightarrow> m \<noteq> []"
proof
  assume "getFallbackModel m = Some fb" and "m = []"
  then show False
    by (simp add: getFallbackModel_def AUTO_SWITCH_MODEL_MAP_def objectPrototypeMember_nonempty
        js_def)
qed

lemma performStreamRequest_rate_limit:
  assumes "fetch w tr req = FetchResponse r0" and "isRateLimitStatus (status r0)"
    and "getFallbackModel m = Some fb" and "isEnabled env"
  shows "performStreamRequest parse w env req n False r (Some m) tr =
    (case performStreamRequest parse w env (req\<lparr>model := fb\<rparr>) n True r (Some m)
            (tr @ [Fetch req]) of
       (out, e, tr') \<Rightarrow> (Fragment (textChunk (createSwitchNotification m fb)) # out, e, tr'))"
  using assms rate_limit_not_ok [OF assms(2)] getFallbackModel_nonempty [OF assms(3)]
  by (subst performStreamRequest.simps) (simp add: response_ok_def fallbackDecision_def)

subsection \<open>Sample runs\<close>

lemma scripted_fetch:
  "fetch (scriptedWorld rs) tr q =
     (case drop (fetchCount tr) rs of [] \<Rightarrow> FetchRejected NonError | resp # _ \<Rightarrow> FetchResponse resp)"
  "clearTokenCache (scriptedWorld rs) tr = None"
  "initializeAuth (scriptedWorld rs) tr = None"
  "prepare (scriptedWorld rs) tr modelId = Inr (js ''project'', ())"
  by (simp_all add: scriptedWorld_def)

lemma consumeBody_hi:
  "consumeBody sampleJSON n r \<lparr>reads = [js ''data: '' @ js ''{hi}'' @ js ''\<newline>\<newline>''], ending = None\<rparr> =
     ((if (n \<or> r \<and> False) then [CloseDelimiter] else []) @ [Fragment (textChunk (js ''hi''))], None)"
  by (simp add: consumeBody_def parseSSEStream_def js_def NL_def trim_def isWhiteSpace_def
      startsWith_def tryParse_def sampleJSON_def partEvent_def handleEvent_def
      firstCandidate_def candidateParts_def handlePart_def includes_str_def)

lemma consumeBody_tagged:
  "consumeBody sampleJSON n False \<lparr>reads = [js ''data: '' @ js ''{tagged}'' @ js ''\<newline>\<newline>''], ending = None\<rparr> =
     ([Fragment (realThinkingChunk (js ''plan'')), Fragment (textChunk (js ''answer''))], None)"
proof -
  have p: "handlePart n False st \<lparr>part_text = Some (js ''<think>plan</think>answer''), part_thought = None\<rparr>
     = ([Fragment (realThinkingChunk (js ''plan'')), Fragment (textChunk (js ''answer''))], st)" for st
  proof -
    have t: "js ''<think>plan</think>answer'' = js ''<think>'' @ js ''plan'' @ js ''</think>'' @ js ''answer''"
      by (simp add: js_def)
    have a: "\<not> includes_str (js ''plan'') (js ''</think>'')"
      by (simp add: includes_str_def js_def startsWith_def)
    have b: "thinkingMatch (js ''answer'') = None"
      by (simp add: thinkingMatch_def js_def startsWith_def)
    have tr: "trim (js ''answer'') = js ''answer''"
      by (simp add: trim_def js_def isWhiteSpace_def)
    have ne: "js ''<think>'' @ js ''plan'' @ js ''</think>'' @ js ''answer'' \<noteq> []"
      by (simp add: js_def)
    have ne2: "js ''answer'' \<noteq> []"
      by (simp add: js_def)
    show ?thesis
      unfolding t using ne ne2
      by (simp add: handlePart_def includes_open_tag thinkingMatch_tagged [OF a]
          removeThink_tagged [OF a b] tr Let_def)
  qed
  show ?thesis
    by (simp add: consumeBody_def parseSSEStream_def NL_def trim_def isWhiteSpace_def
        startsWith_def tryParse_def sampleJSON_def partEvent_def handleEvent_def
        firstCandidate_def candidateParts_def p)
      (simp add: js_def NL_def trim_def isWhiteSpace_def
        startsWith_def tryParse_def sampleJSON_def partEvent_def handleEvent_def
        firstCandidate_def candidateParts_def p [unfolded js_def, simplified])
qed

lemma sample_notification:
  "createSwitchNotification (js ''gemini-2.5-pro'') (js ''gemini-2.5-flash'') =
     js ''[Auto-switched from gemini-2.5-pro to gemini-2.5-flash due to rate limiting]\<newline>\<newline>''"
  by (simp add: createSwitchNotification_def js_def)

lemma sample_fallback: "getFallbackModel (js ''gemini-2.5-pro'') = Some (js ''gemini-2.5-flash'')"
  by (simp add: getFallbackModel_def AUTO_SWITCH_MODEL_MAP_def js_def)

lemma inherited_key_fallback:
  "getFallbackModel (js ''constructor'') = Some (js ''function Object() { [native code] }'')"
  by (simp add: getFallbackModel_def AUTO_SWITCH_MODEL_MAP_def objectPrototypeMember_def js_def)

lemma streamRequestFailed_503:
  "streamRequestFailed 503 = JsError (js ''Stream request failed: 503'')"
  by (simp add: streamRequestFailed_def decimal.simps js_def)

subsection \<open>Claims about the controller\<close>

text \<open>
  Claim C5. When the first response has status 401 (and clearing the token cache and
  re-authenticating succeed), the calls made are exactly: the request, \<open>clearTokenCache\<close>,
  \<open>initializeAuth\<close>, the same request again. When the second response is 401 again (its
  body can be read), nothing is yielded and the error \<open>Stream request failed: 401\<close> is
  thrown; when it is 200 with a body, the caller gets what the handling of that body
  yields and nothing else.
\<close>

theorem auth_failure_retried_once:
  assumes "fetch w tr req = FetchResponse r0" and "status r0 = 401"
    and "clearTokenCache w (tr @ [Fetch req]) = None"
    and "initializeAuth w (tr @ [Fetch req, ClearTokenCache]) = None"
  shows
    "snd (snd (performStreamRequest parse w env req n False r om tr)) =
       tr @ [Fetch req, ClearTokenCache, InitializeAuth, Fetch req]
     \<and> (\<forall>r1. fetch w (tr @ [Fetch req, ClearTokenCache, InitializeAuth]) req = FetchResponse r1
            \<and> status r1 = 401 \<and> responseTextFailure r1 = None
          \<longrightarrow> fst (performStreamRequest parse w env req n False r om tr) = []
              \<and> fst (snd (performStreamRequest parse w env req n False r om tr))
                  = Some (JsError (js ''Stream request failed: 401'')))
     \<and> (\<forall>r1 b. fetch w (tr @ [Fetch req, ClearTokenCache, InitializeAuth]) req = FetchResponse r1
            \<and> status r1 = 200 \<and> body r1 = Some b
          \<longrightarrow> (fst (performStreamRequest parse w env req n False r om tr),
               fst (snd (performStreamRequest parse w env req n False r om tr)))
                = consumeBody parse n r b)"
proof (intro conjI allI impI)
  show "snd (snd (performStreamRequest parse w env req n False r om tr)) =
       tr @ [Fetch req, ClearTokenCache, InitializeAuth, Fetch req]"
    by (simp add: performStreamRequest_401 [OF assms] retry_trace)
next
  fix r1
  assume "fetch w (tr @ [Fetch req, ClearTokenCache, InitializeAuth]) req = FetchResponse r1
      \<and> status r1 = 401 \<and> responseTextFailure r1 = None"
  then have *: "performStreamRequest parse w env req n False r om tr =
      ([], Some (streamRequestFailed 401),
       (tr @ [Fetch req, ClearTokenCache, InitializeAuth]) @ [Fetch req])"
    using retry_failed [of w "tr @ [Fetch req, ClearTokenCache, InitializeAuth]" req r1]
    by (simp add: performStreamRequest_401 [OF assms] response_ok_def)
  show "fst (performStreamRequest parse w env req n False r om tr) = []"
    by (simp add: *)
  show "fst (snd (performStreamRequest parse w env req n False r om tr))
      = Some (JsError (js ''Stream request failed: 401''))"
    by (simp add: * streamRequestFailed_401)
next
  fix r1 b
  assume "fetch w (tr @ [Fetch req, ClearTokenCache, InitializeAuth]) req = FetchResponse r1
      \<and> status r1 = 200 \<and> body r1 = Some b"
  then show "(fst (performStreamRequest parse w env req n False r om tr),
       fst (snd (performStreamRequest parse w env req n False r om tr)))
      = consumeBody parse n r b"
    using retry_succeeded [of w "tr @ [Fetch req, ClearTokenCache, InitializeAuth]" req r1 b]
    by (simp add: performStreamRequest_401 [OF assms] response_ok_def)
qed

theorem auth_failure_retried_once_witness:
  "performStreamRequest sampleJSON (scriptedWorld [failResponse 401, okResponse (js ''{hi}'')])
      (sampleEnv False False) sampleRequest False False False (Some (js ''gemini-2.5-pro'')) []
    = ([Fragment (textChunk (js ''hi''))], None,
       [Fetch sampleRequest, ClearTokenCache, InitializeAuth, Fetch sampleRequest])
   \<and> performStreamRequest sampleJSON (scriptedWorld [failResponse 401, failResponse 401])
      (sampleEnv False False) sampleRequest False False False (Some (js ''gemini-2.5-pro'')) []
    = ([], Some (JsError (js ''Stream request failed: 401'')),
       [Fetch sampleRequest, ClearTokenCache, InitializeAuth, Fetch sampleRequest])"
proof
  let ?w = "scriptedWorld [failResponse 401, okResponse (js ''{hi}'')]"
  have f0: "fetch ?w [] sampleRequest = FetchResponse (failResponse 401)"
    by (simp add: scripted_fetch)
  have s0: "status (failResponse 401) = 401"
    by (simp add: failResponse_def)
  have c: "clearTokenCache ?w ([] @ [Fetch sampleRequest]) = None"
    and i: "initializeAuth ?w ([] @ [Fetch sampleRequest, ClearTokenCache]) = None"
    by (simp_all add: scripted_fetch)
  have f1: "fetch ?w ([] @ [Fetch sampleRequest, ClearTokenCache, InitializeAuth]) sampleRequest
      = FetchResponse (okResponse (js ''{hi}''))"
    by (simp add: scripted_fetch)
  have ok: "status (okResponse (js ''{hi}'')) = 200"
    and bd: "body (okResponse (js ''{hi}'')) =
      Some \<lparr>reads = [js ''data: '' @ js ''{hi}'' @ js ''\<newline>\<newline>''], ending = None\<rparr>"
    by (simp_all add: okResponse_def)
  show "performStreamRequest sampleJSON ?w
      (sampleEnv False False) sampleRequest False False False (Some (js ''gemini-2.5-pro'')) []
    = ([Fragment (textChunk (js ''hi''))], None,
       [Fetch sampleRequest, ClearTokenCache, InitializeAuth, Fetch sampleRequest])"
    using auth_failure_retried_once [OF f0 s0 c i, of sampleJSON "sampleEnv False False"
        False False "Some (js ''gemini-2.5-pro'')"] f1 ok bd
    by (simp add: prod_eq_iff consumeBody_hi)
next
  let ?w = "scriptedWorld [failResponse 401, failResponse 401]"
  have f0: "fetch ?w [] sampleRequest = FetchResponse (failResponse 401)"
    by (simp add: scripted_fetch)
  have s0: "status (failResponse 401) = 401"
    by (simp add: failResponse_def)
  have c: "clearTokenCache ?w ([] @ [Fetch sampleRequest]) = None"
    and i: "initializeAuth ?w ([] @ [Fetch sampleRequest, ClearTokenCache]) = None"
    by (simp_all add: scripted_fetch)
  have f1: "fetch ?w ([] @ [Fetch sampleRequest, ClearTokenCache, InitializeAuth]) sampleRequest
      = FetchResponse (failResponse 401)"
    by (simp add: scripted_fetch)
  have rt: "responseTextFailure (failResponse 401) = None"
    by (simp add: responseTextFailure_def failResponse_def)
  show "performStreamRequest sampleJSON ?w
      (sampleEnv False False) sampleRequest False False False (Some (js ''gemini-2.5-pro'')) []
    = ([], Some (JsError (js ''Stream request failed: 401'')),
       [Fetch sampleRequest, ClearTokenCache, InitializeAuth, Fetch sampleRequest])"
    using auth_failure_retried_once [OF f0 s0 c i, of sampleJSON "sampleEnv False False"
        False False "Some (js ''gemini-2.5-pro'')"] f1 s0 rt
    by (simp add: prod_eq_iff)
qed

text \<open>
  Claim C6. When the first response has status 429 or 503, a fallback model is configured
  for the original model and switching is enabled, the calls made are exactly the request
  and the request with the fallback model id; the stream starts with the switch
  notification, followed by what the fallback attempt yields, and the fallback attempt
  yields no notification: on a second rate-limit response it yields nothing and throws,
  on success it yields what the body gives.
\<close>

theorem rate_limit_switches_model_once:
  assumes "fetch w tr req = FetchResponse r0" and "isRateLimitStatus (status r0)"
    and "getFallbackModel m = Some fb" and "isEnabled env"
  shows
    "snd (snd (performStreamRequest parse w env req n False r (Some m) tr)) =
       tr @ [Fetch req, Fetch (req\<lparr>model := fb\<rparr>)]
     \<and> fst (performStreamRequest parse w env req n False r (Some m) tr) =
         Fragment (textChunk (createSwitchNotification m fb))
           # fst (performStreamRequest parse w env (req\<lparr>model := fb\<rparr>) n True r (Some m)
                    (tr @ [Fetch req]))
     \<and> (\<forall>r1. fetch w (tr @ [Fetch req]) (req\<lparr>model := fb\<rparr>) = FetchResponse r1
            \<and> isRateLimitStatus (status r1) \<and> responseTextFailure r1 = None
          \<longrightarrow> fst (performStreamRequest parse w env req n False r (Some m) tr) =
                [Fragment (textChunk (createSwitchNotification m fb))]
              \<and> fst (snd (performStreamRequest parse w env req n False r (Some m) tr))
                  = Some (streamRequestFailed (status r1)))
     \<and> (\<forall>r1 b. fetch w (tr @ [Fetch req]) (req\<lparr>model := fb\<rparr>) = FetchResponse r1
            \<and> response_ok r1 \<and> body r1 = Some b
          \<longrightarrow> fst (performStreamRequest parse w env req n False r (Some m) tr) =
                Fragment (textChunk (createSwitchNotification m fb))
                  # fst (consumeBody parse n r b)
              \<and> fst (snd (performStreamRequest parse w env req n False r (Some m) tr))
                  = snd (consumeBody parse n r b))"
proof (intro conjI allI impI)
  show "snd (snd (performStreamRequest parse w env req n False r (Some m) tr)) =
       tr @ [Fetch req, Fetch (req\<lparr>model := fb\<rparr>)]"
    by (simp add: performStreamRequest_rate_limit [OF assms] case_prod_beta retry_trace)
  show head: "fst (performStreamRequest parse w env req n False r (Some m) tr) =
         Fragment (textChunk (createSwitchNotification m fb))
           # fst (performStreamRequest parse w env (req\<lparr>model := fb\<rparr>) n True r (Some m)
                    (tr @ [Fetch req]))"
    by (simp add: performStreamRequest_rate_limit [OF assms] case_prod_beta)
next
  fix r1
  assume a: "fetch w (tr @ [Fetch req]) (req\<lparr>model := fb\<rparr>) = FetchResponse r1
      \<and> isRateLimitStatus (status r1) \<and> responseTextFailure r1 = None"
  then have "\<not> response_ok r1"
    using rate_limit_not_ok [of "status r1"] by (simp add: response_ok_def)
  with a have *: "performStreamRequest parse w env (req\<lparr>model := fb\<rparr>) n True r (Some m)
      (tr @ [Fetch req]) =
      ([], Some (streamRequestFailed (status r1)), (tr @ [Fetch req]) @ [Fetch (req\<lparr>model := fb\<rparr>)])"
    by (intro retry_failed) simp_all
  show "fst (performStreamRequest parse w env req n False r (Some m) tr) =
      [Fragment (textChunk (createSwitchNotification m fb))]"
    by (simp add: performStreamRequest_rate_limit [OF assms] *)
  show "fst (snd (performStreamRequest parse w env req n False r (Some m) tr))
      = Some (streamRequestFailed (status r1))"
    by (simp add: performStreamRequest_rate_limit [OF assms] *)
next
  fix r1 b
  assume a: "fetch w (tr @ [Fetch req]) (req\<lparr>model := fb\<rparr>) = FetchResponse r1
      \<and> response_ok r1 \<and> body r1 = Some b"
  then have f: "fetch w (tr @ [Fetch req]) (req\<lparr>model := fb\<rparr>) = FetchResponse r1"
    and ok: "response_ok r1" and bd: "body r1 = Some b"
    by simp_all
  have *: "performStreamRequest parse w env (req\<lparr>model := fb\<rparr>) n True r (Some m)
      (tr @ [Fetch req]) =
      (fst (consumeBody parse n r b), snd (consumeBody parse n r b),
       (tr @ [Fetch req]) @ [Fetch (req\<lparr>model := fb\<rparr>)])"
    by (rule retry_succeeded [OF f ok bd])
  show "fst (performStreamRequest parse w env req n False r (Some m) tr) =
      Fragment (textChunk (createSwitchNotification m fb)) # fst (consumeBody parse n r b)"
    by (simp add: performStreamRequest_rate_limit [OF assms] *)
  show "fst (snd (performStreamRequest parse w env req n False r (Some m) tr))
      = snd (consumeBody parse n r b)"
    by (simp add: performStreamRequest_rate_limit [OF assms] *)
qed

theorem rate_limit_switches_model_once_witness:
  "performStreamRequest sampleJSON (scriptedWorld [failResponse 429, okResponse (js ''{hi}'')])
      (sampleEnv False True) sampleRequest False False False (Some (js ''gemini-2.5-pro'')) []
    = ([Fragment (textChunk
          (js ''[Auto-switched from gemini-2.5-pro to gemini-2.5-flash due to rate limiting]\<newline>\<newline>'')),
        Fragment (textChunk (js ''hi''))], None,
       [Fetch sampleRequest, Fetch (sampleRequest\<lparr>model := js ''gemini-2.5-flash''\<rparr>)])
   \<and> performStreamRequest sampleJSON (scriptedWorld [failResponse 429, failResponse 503])
      (sampleEnv False True) sampleRequest False False False (Some (js ''gemini-2.5-pro'')) []
    = ([Fragment (textChunk
          (js ''[Auto-switched from gemini-2.5-pro to gemini-2.5-flash due to rate limiting]\<newline>\<newline>''))],
       Some (JsError (js ''Stream request failed: 503'')),
       [Fetch sampleRequest, Fetch (sampleRequest\<lparr>model := js ''gemini-2.5-flash''\<rparr>)])"
proof
  let ?fb = "sampleRequest\<lparr>model := js ''gemini-2.5-flash''\<rparr>"
  have rl: "isRateLimitStatus (status (failResponse 429))"
    by (simp add: isRateLimitStatus_def RATE_LIMIT_STATUS_CODES_def failResponse_def)
  have en: "isEnabled (sampleEnv False True)"
    by (simp add: isEnabled_def sampleEnv_def)
  {
    let ?w = "scriptedWorld [failResponse 429, okResponse (js ''{hi}'')]"
    have f0: "fetch ?w [] sampleRequest = FetchResponse (failResponse 429)"
      by (simp add: scripted_fetch)
    have f1: "fetch ?w ([] @ [Fetch sampleRequest]) ?fb = FetchResponse (okResponse (js ''{hi}''))"
      by (simp add: scripted_fetch)
    have ok: "response_ok (okResponse (js ''{hi}''))"
      and bd: "body (okResponse (js ''{hi}'')) =
        Some \<lparr>reads = [js ''data: '' @ js ''{hi}'' @ js ''\<newline>\<newline>''], ending = None\<rparr>"
      by (simp_all add: okResponse_def response_ok_def)
    show "performStreamRequest sampleJSON ?w
        (sampleEnv False True) sampleRequest False False False (Some (js ''gemini-2.5-pro'')) []
      = ([Fragment (textChunk
            (js ''[Auto-switched from gemini-2.5-pro to gemini-2.5-flash due to rate limiting]\<newline>\<newline>'')),
          Fragment (textChunk (js ''hi''))], None, [Fetch sampleRequest, Fetch ?fb])"
    proof -
      let ?run = "performStreamRequest sampleJSON ?w (sampleEnv False True) sampleRequest
        False False False (Some (js ''gemini-2.5-pro'')) []"
      let ?b = "\<lparr>reads = [js ''data: '' @ js ''{hi}'' @ js ''\<newline>\<newline>''], ending = None\<rparr>"
      note T = rate_limit_switches_model_once
        [OF f0 rl sample_fallback en, of sampleJSON False False]
      from T have t: "snd (snd ?run) = [] @ [Fetch sampleRequest, Fetch ?fb]"
        by blast
      from T f1 ok bd have o: "fst ?run =
          Fragment (textChunk (createSwitchNotification (js ''gemini-2.5-pro'') (js ''gemini-2.5-flash'')))
            # fst (consumeBody sampleJSON False False ?b)
          \<and> fst (snd ?run) = snd (consumeBody sampleJSON False False ?b)"
        by blast
      from t o show ?thesis
        by (simp add: prod_eq_iff consumeBody_hi sample_notification)
    qed
  }
  {
    let ?w = "scriptedWorld [failResponse 429, failResponse 503]"
    have f0: "fetch ?w [] sampleRequest = FetchResponse (failResponse 429)"
      by (simp add: scripted_fetch)
    have f1: "fetch ?w ([] @ [Fetch sampleRequest]) ?fb = FetchResponse (failResponse 503)"
      by (simp add: scripted_fetch)
    have rl1: "isRateLimitStatus (status (failResponse 503))"
      and rt: "responseTextFailure (failResponse 503) = None"
      and st: "status (failResponse 503) = 503"
      by (simp_all add: isRateLimitStatus_def RATE_LIMIT_STATUS_CODES_def failResponse_def
          responseTextFailure_def)
    show "performStreamRequest sampleJSON ?w
        (sampleEnv False True) sampleRequest False False False (Some (js ''gemini-2.5-pro'')) []
      = ([Fragment (textChunk
            (js ''[Auto-switched from gemini-2.5-pro to gemini-2.5-flash due to rate limiting]\<newline>\<newline>''))],
         Some (JsError (js ''Stream request failed: 503'')), [Fetch sampleRequest, Fetch ?fb])"
    proof -
      let ?run = "performStreamRequest sampleJSON ?w (sampleEnv False True) sampleRequest
        False False False (Some (js ''gemini-2.5-pro'')) []"
      note T = rate_limit_switches_model_once
        [OF f0 rl sample_fallback en, of sampleJSON False False]
      from T have t: "snd (snd ?run) = [] @ [Fetch sampleRequest, Fetch ?fb]"
        by blast
      from T f1 rl1 rt have o: "fst ?run =
          [Fragment (textChunk (createSwitchNotification (js ''gemini-2.5-pro'') (js ''gemini-2.5-flash'')))]
          \<and> fst (snd ?run) = Some (streamRequestFailed (status (failResponse 503)))"
        by blast
      from t o show ?thesis
        by (simp add: prod_eq_iff sample_notification streamRequestFailed_503 st)
    qed
  }
qed

subsection \<open>Closing the synthetic thinking section\<close>

lemma chunkText_short: "s \<noteq> [] \<Longrightarrow> length s \<le> 15 \<Longrightarrow> chunkText s = [s]"
  by (subst chunkText.simps) (simp add: THINKING_CONTENT_CHUNK_SIZE_def)

lemma sample_prelude:
  "generateReasoningOutput [js ''Hm.''] True =
     [OpenDelimiter, Fragment (thinkingContentChunk (js ''Hm.''))]"
  using chunkText_short [of "js ''Hm.''"]
  by (simp add: generateReasoningOutput_def js_def)

lemma sample_thinking_model: "isThinkingModel (js ''gemini-2.5-pro'')"
  by (simp add: isThinkingModel_def geminiCliModels_def js_def)

text \<open>
  Claim C2, evaluated. With fake thinking streamed as content, the prelude opens the
  thinking section. When the upstream then sends a part \<open><think>plan</think>answer\<close>,
  the text \<open>answer\<close> is yielded with no closing delimiter before it (and none at all):
  the branch for legacy tags does not look at \<open>needsThinkingClose\<close>.
\<close>

theorem text_after_synthetic_thinking_not_closed:
  "streamContent sampleJSON (scriptedWorld [okResponse (js ''{tagged}'')]) (sampleEnv True False)
      (js ''gemini-2.5-pro'') None [js ''Hm.''] []
    = ([OpenDelimiter, Fragment (thinkingContentChunk (js ''Hm.'')),
        Fragment (realThinkingChunk (js ''plan'')), Fragment (textChunk (js ''answer''))],
       None, [Fetch sampleRequest])"
proof -
  have run: "performStreamRequest sampleJSON (scriptedWorld [okResponse (js ''{tagged}'')])
      (sampleEnv True False) sampleRequest True False False (Some (js ''gemini-2.5-pro'')) []
    = ([Fragment (realThinkingChunk (js ''plan'')), Fragment (textChunk (js ''answer''))],
       None, [Fetch sampleRequest])"
    by (subst performStreamRequest.simps)
       (simp add: scripted_fetch okResponse_def response_ok_def consumeBody_tagged)
  show ?thesis
    by (simp add: streamContent_def scripted_fetch sampleEnv_def sample_thinking_model
        sample_prelude run [unfolded sampleRequest_def sampleEnv_def, simplified]
        sampleRequest_def)
qed

text \<open>
  The same run with any reasoning texts: the prelude, as \<open>generateReasoningOutput\<close>
  yields it (it has no closing delimiter), is followed by the two fragments only.
\<close>

lemma text_after_any_synthetic_prelude_not_closed:
  "streamContent sampleJSON (scriptedWorld [okResponse (js ''{tagged}'')]) (sampleEnv True False)
      (js ''gemini-2.5-pro'') None reasoningTexts []
    = (generateReasoningOutput reasoningTexts True
         @ [Fragment (realThinkingChunk (js ''plan'')), Fragment (textChunk (js ''answer''))],
       None, [Fetch sampleRequest])"
proof -
  have run: "performStreamRequest sampleJSON (scriptedWorld [okResponse (js ''{tagged}'')])
      (sampleEnv True False) sampleRequest True False False (Some (js ''gemini-2.5-pro'')) []
    = ([Fragment (realThinkingChunk (js ''plan'')), Fragment (textChunk (js ''answer''))],
       None, [Fetch sampleRequest])"
    by (subst performStreamRequest.simps)
       (simp add: scripted_fetch okResponse_def response_ok_def consumeBody_tagged)
  show ?thesis
    by (simp add: streamContent_def scripted_fetch sampleEnv_def sample_thinking_model
        run [unfolded sampleRequest_def sampleEnv_def, simplified] sampleRequest_def)
qed

text \<open>
  In the same mode, the switch notification of a fallback is yielded as a text chunk
  inside the open thinking section; the closing delimiter follows it.
\<close>

lemma notification_inside_synthetic_thinking:
  "streamContent sampleJSON (scriptedWorld [failResponse 429, okResponse (js ''{hi}'')])
      (sampleEnv True True) (js ''gemini-2.5-pro'') None [js ''Hm.''] []
    = ([OpenDelimiter, Fragment (thinkingContentChunk (js ''Hm.'')),
        Fragment (textChunk
          (js ''[Auto-switched from gemini-2.5-pro to gemini-2.5-flash due to rate limiting]\<newline>\<newline>'')),
        CloseDelimiter, Fragment (textChunk (js ''hi''))],
       None, [Fetch sampleRequest, Fetch (sampleRequest\<lparr>model := js ''gemini-2.5-flash''\<rparr>)])"
proof -
  let ?w = "scriptedWorld [failResponse 429, okResponse (js ''{hi}'')]"
  let ?fb = "sampleRequest\<lparr>model := js ''gemini-2.5-flash''\<rparr>"
  have rl: "isRateLimitStatus (status (failResponse 429))"
    by (simp add: isRateLimitStatus_def RATE_LIMIT_STATUS_CODES_def failResponse_def)
  have en: "isEnabled (sampleEnv True True)"
    by (simp add: isEnabled_def sampleEnv_def)
  have f0: "fetch ?w [] sampleRequest = FetchResponse (failResponse 429)"
    by (simp add: scripted_fetch)
  have f1: "fetch ?w ([] @ [Fetch sampleRequest]) ?fb = FetchResponse (okResponse (js ''{hi}''))"
    by (simp add: scripted_fetch)
  have ok: "response_ok (okResponse (js ''{hi}''))"
    and bd: "body (okResponse (js ''{hi}'')) =
      Some \<lparr>reads = [js ''data: '' @ js ''{hi}'' @ js ''\<newline>\<newline>''], ending = None\<rparr>"
    by (simp_all add: okResponse_def response_ok_def)
  have run: "performStreamRequest sampleJSON ?w (sampleEnv True True) sampleRequest True False
      False (Some (js ''gemini-2.5-pro'')) []
    = ([Fragment (textChunk (createSwitchNotification (js ''gemini-2.5-pro'') (js ''gemini-2.5-flash''))),
        CloseDelimiter, Fragment (textChunk (js ''hi''))], None, [Fetch sampleRequest, Fetch ?fb])"
    unfolding performStreamRequest_rate_limit [OF f0 rl sample_fallback en]
      retry_succeeded [OF f1 ok bd]
    by (simp add: consumeBody_hi)
  show ?thesis
    by (simp add: streamContent_def scripted_fetch sampleEnv_def sample_thinking_model
        sample_prelude sample_notification [symmetric]
        run [unfolded sampleRequest_def sampleEnv_def, simplified] sampleRequest_def)
qed

section \<open>Properties of the downstream serializer\<close>

lemma chunk_delta_openAIChunk: "chunk_delta (openAIChunk t d) = d"
  by (simp add: openAIChunk_def)

lemma transform_cases:
  "transform t fc c = ([], fc)
   \<or> (\<exists>s. transform t fc c = ([openAIChunk t (reasoningDelta s)], fc))
   \<or> (\<exists>s. transform t fc c = ([openAIChunk t (contentDelta fc s)], False))"
  by (cases "chunk_type c"; cases "chunk_data c") (auto simp: transform_def)

lemma transformAll_no_role:
  "d \<in> set (map chunk_delta (transformAll t False chunks)) \<Longrightarrow> delta_role d = None"
proof (induction chunks)
  case Nil
  then show ?case by simp
next
  case (Cons c cs)
  from transform_cases [of t False c] show ?case
  proof (elim disjE exE)
    assume "transform t False c = ([], False)"
    with Cons show ?thesis by simp
  next
    fix s assume "transform t False c = ([openAIChunk t (reasoningDelta s)], False)"
    with Cons show ?thesis
      by (auto simp: chunk_delta_openAIChunk reasoningDelta_def)
  next
    fix s assume "transform t False c = ([openAIChunk t (contentDelta False s)], False)"
    with Cons show ?thesis
      by (auto simp: chunk_delta_openAIChunk contentDelta_def)
  qed
qed

text \<open>
  Claim C3, as the code has it. Among the deltas of the chunks that \<open>transform\<close> emits
  for a stream, those before the first content delta (reasoning deltas) carry no role, the
  first content delta (from a non-empty text or thinking-as-content chunk) carries the
  role \<open>assistant\<close>, and no later delta carries a role. So at most one chunk carries the
  role, and one does exactly when the stream has a content delta.
\<close>

theorem role_on_first_content_delta_only:
  "(\<forall>d \<in> set (takeWhile (\<lambda>d. delta_content d = None)
                   (map chunk_delta (transformAll t True chunks))). delta_role d = None)
   \<and> (case dropWhile (\<lambda>d. delta_content d = None)
              (map chunk_delta (transformAll t True chunks)) of
        [] \<Rightarrow> True
      | d # later \<Rightarrow>
          delta_role d = Some (js ''assistant'') \<and> (\<forall>d' \<in> set later. delta_role d' = None))"
proof (induction chunks)
  case Nil
  show ?case by simp
next
  case (Cons c cs)
  define ds where "ds = map chunk_delta (transformAll t True cs)"
  define ds' where "ds' = map chunk_delta (transformAll t False cs)"
  note IH = Cons.IH [folded ds_def]
  have quiet: "\<forall>d \<in> set ds'. delta_role d = None"
    unfolding ds'_def using transformAll_no_role [of _ t cs] by blast
  from transform_cases [of t True c] show ?case
  proof (elim disjE exE)
    assume "transform t True c = ([], True)"
    then have eq: "map chunk_delta (transformAll t True (c # cs)) = ds"
      by (simp add: ds_def)
    show ?thesis unfolding eq by (rule IH)
  next
    fix s assume "transform t True c = ([openAIChunk t (reasoningDelta s)], True)"
    then have eq: "map chunk_delta (transformAll t True (c # cs)) = reasoningDelta s # ds"
      by (simp add: ds_def chunk_delta_openAIChunk)
    have "delta_content (reasoningDelta s) = None" "delta_role (reasoningDelta s) = None"
      by (simp_all add: reasoningDelta_def)
    then show ?thesis unfolding eq using IH by simp
  next
    fix s assume "transform t True c = ([openAIChunk t (contentDelta True s)], False)"
    then have eq: "map chunk_delta (transformAll t True (c # cs)) = contentDelta True s # ds'"
      by (simp add: ds'_def chunk_delta_openAIChunk)
    have "delta_content (contentDelta True s) = Some s"
      "delta_role (contentDelta True s) = Some (js ''assistant'')"
      by (simp_all add: contentDelta_def)
    then show ?thesis unfolding eq using quiet by simp
  qed
qed

theorem role_on_first_content_delta_only_witness:
  "map (\<lambda>c. (delta_role (chunk_delta c), delta_content (chunk_delta c)))
     (transformAll sampleTransformer True
        [reasoningChunk (js ''r''), thinkingContentChunk (js ''a''), textChunk (js ''b'')])
    = [(None, None), (Some (js ''assistant''), Some (js ''a'')), (None, Some (js ''b''))]"
  using role_on_first_content_delta_only [of sampleTransformer
      "[reasoningChunk (js ''r''), thinkingContentChunk (js ''a''), textChunk (js ''b'')]"]
  by (simp add: transform_def reasoningChunk_def thinkingContentChunk_def textChunk_def
      chunk_delta_openAIChunk reasoningDelta_def contentDelta_def js_def)

text \<open>
  The claim as stated fails for a stream that starts with a reasoning chunk: the first
  content-bearing chunk is the reasoning delta, and the role is on the second chunk.
\<close>

theorem reasoning_first_chunk_has_no_role:
  "createOpenAIStreamTransformer sampleTransformer [reasoningChunk (js ''r''), textChunk (js ''t'')]
    = [DataFrame (openAIChunk sampleTransformer
         \<lparr>delta_role = None, delta_content = None, delta_reasoning = Some (js ''r'')\<rparr>),
       DataFrame (openAIChunk sampleTransformer
         \<lparr>delta_role = Some (js ''assistant''), delta_content = Some (js ''t''),
          delta_reasoning = None\<rparr>),
       DataFrame ((openAIChunk sampleTransformer
         \<lparr>delta_role = None, delta_content = None, delta_reasoning = None\<rparr>)
           \<lparr>finish_reason := Some (js ''stop'')\<rparr>),
       DoneFrame]"
  by (simp add: createOpenAIStreamTransformer_def transform_def reasoningChunk_def textChunk_def
      reasoningDelta_def contentDelta_def flush_def js_def)

section \<open>Properties of the non-streaming completion\<close>

lemma textData_Cons:
  "textData (c # cs) =
     (case (chunk_type c, chunk_data c) of (Text, StringData s) \<Rightarrow> s | _ \<Rightarrow> []) @ textData cs"
  by (cases "chunk_type c"; cases "chunk_data c") (simp_all add: textData_def)

lemma lastUsageData_Cons:
  "lastUsageData (c # cs) =
     (case lastUsageData cs of
        Some u \<Rightarrow> Some u
      | None \<Rightarrow> if isUsageChunk c then Some (chunk_data c) else None)"
  by (simp add: lastUsageData_def split: list.splits)

lemma collectChunk_cases:
  "collectChunk acc c =
     acc\<lparr>completion_content := completion_content acc
            @ (case (chunk_type c, chunk_data c) of (Text, StringData s) \<Rightarrow> s | _ \<Rightarrow> []),
         completion_usage := (if isUsageChunk c then Some (chunk_data c) else completion_usage acc)\<rparr>"
  by (cases "chunk_type c"; cases "chunk_data c") (simp_all add: collectChunk_def isUsageChunk_def)

lemma foldl_collectChunk:
  "foldl collectChunk acc chunks =
     \<lparr>completion_content = completion_content acc @ textData chunks,
      completion_usage =
        (case lastUsageData chunks of Some u \<Rightarrow> Some u | None \<Rightarrow> completion_usage acc)\<rparr>"
proof (induction chunks arbitrary: acc)
  case Nil
  show ?case by (simp add: textData_def lastUsageData_def)
next
  case (Cons c cs)
  show ?case
    by (simp only: foldl_Cons Cons.IH textData_Cons lastUsageData_Cons)
       (simp add: collectChunk_cases split: option.splits)
qed

lemma collectChunks_eq:
  "collectChunks initial chunks =
     \<lparr>completion_content = initial @ textData chunks, completion_usage = lastUsageData chunks\<rparr>"
  by (simp add: collectChunks_def foldl_collectChunk split: option.splits)

text \<open>
  Claim C10, as the code has it. When \<open>getCompletion\<close> returns a result, either the
  stream for the requested model ended normally, and the content is the concatenation of
  the data of its text chunks; or that stream threw a rate-limit error, a fallback model
  is configured and enabled, the stream for the fallback model ended normally, and the
  content is the switch notification followed by the concatenation of the data of the
  text chunks of the fallback stream. In both cases no thinking or reasoning chunk
  contributes, and the usage is the data of the last usage chunk of that stream, if any.
\<close>

theorem getCompletion_content:
  assumes "getCompletion parse w env modelId includeReasoningOption reasoningTexts tr
      = (Inr result, tr')"
  shows
    "(\<exists>out. streamContent parse w env modelId includeReasoningOption reasoningTexts tr
          = (out, None, tr')
        \<and> completion_content result = textData (map chunk_of out)
        \<and> completion_usage result = lastUsageData (map chunk_of out))
     \<or> (\<exists>failed error tr1 fallbackModel out.
          streamContent parse w env modelId includeReasoningOption reasoningTexts tr
            = (failed, Some error, tr1)
        \<and> isRateLimitError error
        \<and> getFallbackModel modelId = Some fallbackModel \<and> isEnabled env
        \<and> streamContent parse w env fallbackModel includeReasoningOption reasoningTexts tr1
            = (out, None, tr')
        \<and> completion_content result =
            createSwitchNotification modelId fallbackModel @ textData (map chunk_of out)
        \<and> completion_usage result = lastUsageData (map chunk_of out))"
proof -
  obtain out1 r1 tr1 where s1:
    "streamContent parse w env modelId includeReasoningOption reasoningTexts tr = (out1, r1, tr1)"
    by (cases "streamContent parse w env modelId includeReasoningOption reasoningTexts tr") auto
  show ?thesis
  proof (cases r1)
    case None
    with assms s1 show ?thesis
      by (auto simp: getCompletion_def collectChunks_eq)
  next
    case (Some error)
    with assms s1 have rl: "isRateLimitError error"
      by (auto simp: getCompletion_def split: if_splits)
    from assms s1 Some rl obtain fb where fb: "getFallbackModel modelId = Some fb"
      and en: "isEnabled env"
      by (auto simp: getCompletion_def handleNonStreamingFallback_def
          split: option.splits if_splits)
    obtain out2 r2 tr2 where s2:
      "streamContent parse w env fb includeReasoningOption reasoningTexts tr1 = (out2, r2, tr2)"
      by (cases "streamContent parse w env fb includeReasoningOption reasoningTexts tr1") auto
    from assms s1 Some rl fb en s2 have "r2 = None" and "tr2 = tr'"
      and "result = collectChunks (createSwitchNotification modelId fb) (map chunk_of out2)"
      by (auto simp: getCompletion_def handleNonStreamingFallback_def split: option.splits)
    with s1 Some rl fb en s2 show ?thesis
      by (auto simp: collectChunks_eq)
  qed
qed


lemma rate_limit_message: "isRateLimitError (JsError (js ''Stream request failed: 429''))"
  by (simp add: isRateLimitError_def includes_str_def js_def startsWith_def)

lemma streamRequestFailed_429:
  "streamRequestFailed 429 = JsError (js ''Stream request failed: 429'')"
  by (simp add: streamRequestFailed_def decimal.simps js_def)

lemma no_prelude: "ENABLE_FAKE_THINKING (sampleEnv False a) = None"
  "STREAM_THINKING_AS_CONTENT (sampleEnv False a) = None"
  by (simp_all add: sampleEnv_def)

lemma sample_stream_401_429:
  "streamContent sampleJSON
      (scriptedWorld [failResponse 401, failResponse 429, okResponse (js ''{hi}'')])
      (sampleEnv False True) (js ''gemini-2.5-pro'') None [] []
    = ([], Some (JsError (js ''Stream request failed: 429'')),
       [Fetch sampleRequest, ClearTokenCache, InitializeAuth, Fetch sampleRequest])"
proof -
  let ?w = "scriptedWorld [failResponse 401, failResponse 429, okResponse (js ''{hi}'')]"
  have f0: "fetch ?w [] sampleRequest = FetchResponse (failResponse 401)"
    and s0: "status (failResponse 401) = 401"
    and c: "clearTokenCache ?w ([] @ [Fetch sampleRequest]) = None"
    and i: "initializeAuth ?w ([] @ [Fetch sampleRequest, ClearTokenCache]) = None"
    and f1: "fetch ?w ([] @ [Fetch sampleRequest, ClearTokenCache, InitializeAuth]) sampleRequest
      = FetchResponse (failResponse 429)"
    and nok: "\<not> response_ok (failResponse 429)"
    and rt: "responseTextFailure (failResponse 429) = None"
    and st: "status (failResponse 429) = 429"
    by (simp_all add: scripted_fetch failResponse_def response_ok_def responseTextFailure_def)
  have run: "performStreamRequest sampleJSON ?w (sampleEnv False True) sampleRequest False False
      False (Some (js ''gemini-2.5-pro'')) []
    = ([], Some (JsError (js ''Stream request failed: 429'')),
       [Fetch sampleRequest, ClearTokenCache, InitializeAuth, Fetch sampleRequest])"
    unfolding performStreamRequest_401 [OF f0 s0 c i] retry_failed [OF f1 nok rt]
    by (simp add: st streamRequestFailed_429)
  show ?thesis
    by (simp add: streamContent_def scripted_fetch no_prelude
        run [unfolded sampleRequest_def] sampleRequest_def)
qed

lemma sample_stream_flash:
  "streamContent sampleJSON
      (scriptedWorld [failResponse 401, failResponse 429, okResponse (js ''{hi}'')])
      (sampleEnv False True) (js ''gemini-2.5-flash'') None []
      [Fetch sampleRequest, ClearTokenCache, InitializeAuth, Fetch sampleRequest]
    = ([Fragment (textChunk (js ''hi''))], None,
       [Fetch sampleRequest, ClearTokenCache, InitializeAuth, Fetch sampleRequest,
        Fetch flashRequest])"
proof -
  let ?w = "scriptedWorld [failResponse 401, failResponse 429, okResponse (js ''{hi}'')]"
  let ?tr = "[Fetch sampleRequest, ClearTokenCache, InitializeAuth, Fetch sampleRequest]"
  have run: "performStreamRequest sampleJSON ?w (sampleEnv False True) flashRequest False False
      False (Some (js ''gemini-2.5-flash'')) ?tr
    = ([Fragment (textChunk (js ''hi''))], None, ?tr @ [Fetch flashRequest])"
    by (subst performStreamRequest.simps)
       (simp add: scripted_fetch okResponse_def response_ok_def consumeBody_hi)
  show ?thesis
    by (simp add: streamContent_def scripted_fetch no_prelude
        run [unfolded flashRequest_def, simplified] flashRequest_def)
qed

lemma sample_completion_fallback:
  "getCompletion sampleJSON
      (scriptedWorld [failResponse 401, failResponse 429, okResponse (js ''{hi}'')])
      (sampleEnv False True) (js ''gemini-2.5-pro'') None [] []
    = (Inr \<lparr>completion_content =
              js ''[Auto-switched from gemini-2.5-pro to gemini-2.5-flash due to rate limiting]\<newline>\<newline>hi'',
            completion_usage = None\<rparr>,
       [Fetch sampleRequest, ClearTokenCache, InitializeAuth, Fetch sampleRequest,
        Fetch flashRequest])"
proof -
  have en: "isEnabled (sampleEnv False True)"
    by (simp add: isEnabled_def sampleEnv_def)
  have n: "createSwitchNotification (js ''gemini-2.5-pro'') (js ''gemini-2.5-flash'') @ js ''hi'' =
      js ''[Auto-switched from gemini-2.5-pro to gemini-2.5-flash due to rate limiting]\<newline>\<newline>hi''"
    by (simp add: createSwitchNotification_def js_def)
  show ?thesis
    by (simp add: getCompletion_def sample_stream_401_429 rate_limit_message
        handleNonStreamingFallback_def sample_fallback en sample_stream_flash
        collectChunks_def collectChunk_def textChunk_def n)
qed

text \<open>
  The claim as stated fails when the catch branch runs: after 401, 429 and then a
  successful response, the content starts with the switch notification, which no stream
  yielded as a chunk.
\<close>

theorem fallback_completion_has_notification_prefix:
  "fst (getCompletion sampleJSON
      (scriptedWorld [failResponse 401, failResponse 429, okResponse (js ''{hi}'')])
      (sampleEnv False True) (js ''gemini-2.5-pro'') None [] [])
    = Inr \<lparr>completion_content =
              js ''[Auto-switched from gemini-2.5-pro to gemini-2.5-flash due to rate limiting]\<newline>\<newline>hi'',
            completion_usage = None\<rparr>
   \<and> fst (streamContent sampleJSON
      (scriptedWorld [failResponse 401, failResponse 429, okResponse (js ''{hi}'')])
      (sampleEnv False True) (js ''gemini-2.5-pro'') None [] []) = []
   \<and> fst (streamContent sampleJSON
      (scriptedWorld [failResponse 401, failResponse 429, okResponse (js ''{hi}'')])
      (sampleEnv False True) (js ''gemini-2.5-flash'') None []
      [Fetch sampleRequest, ClearTokenCache, InitializeAuth, Fetch sampleRequest])
    = [Fragment (textChunk (js ''hi''))]"
  by (simp add: sample_completion_fallback sample_stream_401_429 sample_stream_flash)


theorem getCompletion_content_witness:
  "getCompletion sampleJSON
      (scriptedWorld [failResponse 401, failResponse 429, okResponse (js ''{hi}'')])
      (sampleEnv False True) (js ''gemini-2.5-pro'') None [] []
    = (Inr \<lparr>completion_content =
              js ''[Auto-switched from gemini-2.5-pro to gemini-2.5-flash due to rate limiting]\<newline>\<newline>hi'',
            completion_usage = None\<rparr>,
       [Fetch sampleRequest, ClearTokenCache, InitializeAuth, Fetch sampleRequest,
        Fetch flashRequest])
   \<and> js ''[Auto-switched from gemini-2.5-pro to gemini-2.5-flash due to rate limiting]\<newline>\<newline>hi''
      = createSwitchNotification (js ''gemini-2.5-pro'') (js ''gemini-2.5-flash'')
          @ textData (map chunk_of [Fragment (textChunk (js ''hi''))])"
proof -
  let ?w = "scriptedWorld [failResponse 401, failResponse 429, okResponse (js ''{hi}'')]"
  let ?content =
    "js ''[Auto-switched from gemini-2.5-pro to gemini-2.5-flash due to rate limiting]\<newline>\<newline>hi''"
  note h = sample_completion_fallback
  from getCompletion_content [OF h] show ?thesis
  proof
    assume "\<exists>out. streamContent sampleJSON ?w (sampleEnv False True) (js ''gemini-2.5-pro'')
          None [] []
        = (out, None, [Fetch sampleRequest, ClearTokenCache, InitializeAuth, Fetch sampleRequest,
            Fetch flashRequest])
      \<and> completion_content \<lparr>completion_content = ?content, completion_usage = None\<rparr>
          = textData (map chunk_of out)
      \<and> completion_usage \<lparr>completion_content = ?content, completion_usage = None\<rparr>
          = lastUsageData (map chunk_of out)"
    then show ?thesis by (simp add: sample_stream_401_429)
  next
    assume "\<exists>failed error tr1 fallbackModel out.
        streamContent sampleJSON ?w (sampleEnv False True) (js ''gemini-2.5-pro'') None [] []
          = (failed, Some error, tr1)
      \<and> isRateLimitError error
      \<and> getFallbackModel (js ''gemini-2.5-pro'') = Some fallbackModel
      \<and> isEnabled (sampleEnv False True)
      \<and> streamContent sampleJSON ?w (sampleEnv False True) fallbackModel None [] tr1
          = (out, None, [Fetch sampleRequest, ClearTokenCache, InitializeAuth,
              Fetch sampleRequest, Fetch flashRequest])
      \<and> completion_content \<lparr>completion_content = ?content, completion_usage = None\<rparr>
          = createSwitchNotification (js ''gemini-2.5-pro'') fallbackModel
              @ textData (map chunk_of out)
      \<and> completion_usage \<lparr>completion_content = ?content, completion_usage = None\<rparr>
          = lastUsageData (map chunk_of out)"
    then show ?thesis
      using h by (auto simp: sample_stream_401_429 sample_fallback sample_stream_flash)
  qed
qed

end
